theory Spec2Isabelle
  imports Main "HOL-Library.Finite_Map" "HOL-Library.AList"
begin

text \<open>
  A shallow embedding of \<^verbatim>\<open>src/database/firebase.js\<close>: a store of named tables, each
  a JavaScript object kept in an in-memory cache and written back, after a delay of 500,
  to a JSON file of its own. The embedding passes the state of the process and of its
  disk explicitly. It covers the file path of a table, \<open>loadTable\<close>, \<open>saveTable\<close> and
  its timers, \<open>get\<close>, \<open>set\<close>, \<open>del\<close>, \<open>getAll\<close>, \<open>flushAll\<close>, and the balance
  functions of \<open>Database\<close>. Of JavaScript it models what these functions use: truthiness,
  \<open>??\<close> and \<open>||\<close>, object spread, property reads and writes on plain objects with
  the members they inherit from \<open>Object.prototype\<close>, and \<open>JSON.stringify\<close> and
  \<open>JSON.parse\<close> as maps between values and the values that JSON texts denote.
\<close>

section \<open>File locations: \<open>dbFile\<close>\<close>

text \<open>
  The store keeps one JSON file per table, at
  \<^verbatim>\<open>path.join(DATA_DIR, `${name}.json`)\<close> with
  \<^verbatim>\<open>DATA_DIR = path.join(__dirname, '../../data')\<close>.
  \<open>path.join\<close> is Node's; it is modelled here in its POSIX form: the non-empty
  arguments are glued with a slash and the result is normalised, which drops empty and
  \<open>.\<close> segments and lets a \<open>..\<close> segment cancel the segment before it.
  The directory of the module (\<open>__dirname\<close>) is a parameter.
\<close>

fun split_slash :: "string \<Rightarrow> string list" where
  "split_slash [] = [[]]"
| "split_slash (c # cs) =
     (if c = CHR ''/'' then [] # split_slash cs
      else (case split_slash cs of
              [] \<Rightarrow> [[c]]
            | s # ss \<Rightarrow> (c # s) # ss))"

fun normalizeString :: "bool \<Rightarrow> string list \<Rightarrow> string list \<Rightarrow> string list" where
  "normalizeString allowAboveRoot res [] = res"
| "normalizeString allowAboveRoot res (seg # segs) =
     (if seg = [] \<or> seg = ''.'' then normalizeString allowAboveRoot res segs
      else if seg = ''..'' then
        (if res \<noteq> [] \<and> last res \<noteq> ''..'' then normalizeString allowAboveRoot (butlast res) segs
         else if allowAboveRoot then normalizeString allowAboveRoot (res @ [''..'']) segs
         else normalizeString allowAboveRoot res segs)
      else normalizeString allowAboveRoot (res @ [seg]) segs)"

fun join_slash :: "string list \<Rightarrow> string" where
  "join_slash [] = []"
| "join_slash [s] = s"
| "join_slash (s # t # ss) = s @ ''/'' @ join_slash (t # ss)"

definition path_normalize :: "string \<Rightarrow> string" where
  "path_normalize p =
     (if p = [] then ''.''
      else
        let isAbsolute = (hd p = CHR ''/'');
            trailingSeparator = (last p = CHR ''/'');
            r = join_slash (normalizeString (\<not> isAbsolute) [] (split_slash p))
        in if r = [] then (if isAbsolute then ''/'' else if trailingSeparator then ''./'' else ''.'')
           else (if isAbsolute then ''/'' else []) @ r @ (if trailingSeparator then ''/'' else []))"

definition path_join :: "string \<Rightarrow> string \<Rightarrow> string" where
  "path_join a b =
     (case filter (\<lambda>s. s \<noteq> []) [a, b] of
        [] \<Rightarrow> ''.''
      | parts \<Rightarrow> path_normalize (join_slash parts))"

definition DATA_DIR :: "string \<Rightarrow> string" where
  "DATA_DIR dirname = path_join dirname ''../../data''"

definition dbFile :: "string \<Rightarrow> string \<Rightarrow> string" where
  "dbFile dirname name = path_join (DATA_DIR dirname) (name @ ''.json'')"

text \<open>
  What \<open>path_normalize\<close> puts in front of the last segment of \<open>Q/s\<close>; it depends on
  \<open>Q\<close> alone.
\<close>

definition dir_prefix :: "string \<Rightarrow> string" where
  "dir_prefix Q =
     (if hd (Q @ ''/'') = CHR ''/'' then ''/'' else []) @
     (let R = normalizeString (hd (Q @ ''/'') \<noteq> CHR ''/'') [] (split_slash Q)
      in if R = [] then [] else join_slash R @ ''/'')"

section \<open>Values\<close>

text \<open>
  Records are plain data: the JSON values and \<open>undefined\<close>. A number is a double:
  \<open>JNum n\<close> is the double whose value is the integer \<open>n\<close>, and \<open>NaN\<close>, the two
  infinities and \<open>-0\<close> have constructors of their own; fractions are not modelled.
  Strings are byte strings, and an object is the finite map of its own properties (the
  order of the properties is not part of the model).
\<close>

datatype jsval =
    JUndefined
  | JNull
  | JBool bool
  | JNum int
  | JNaN
  | JPosInfinity
  | JNegInfinity
  | JNegZero
  | JStr string
  | JArr "jsval list"
  | JObj "(string, jsval) fmap"

fun truthy :: "jsval \<Rightarrow> bool" where
  "truthy JUndefined = False"
| "truthy JNull = False"
| "truthy (JBool b) = b"
| "truthy (JNum n) = (n \<noteq> 0)"
| "truthy JNaN = False"
| "truthy JPosInfinity = True"
| "truthy JNegInfinity = True"
| "truthy JNegZero = False"
| "truthy (JStr s) = (s \<noteq> [])"
| "truthy (JArr xs) = True"
| "truthy (JObj m) = True"

text \<open>
  \<^verbatim>\<open>typeof value === 'object' && value !== null && !Array.isArray(value)\<close>
\<close>

fun is_plain_object :: "jsval \<Rightarrow> bool" where
  "is_plain_object (JObj m) = True"
| "is_plain_object v = False"

text \<open>
  \<open>cache\<close>, \<open>writeQueues\<close> and every table are ordinary objects, so a read
  \<open>obj[key]\<close> that finds no own property continues in \<open>Object.prototype\<close>. These
  are its members (ECMAScript, with Annex B); all are functions except the accessor
  \<open>__proto__\<close>, which yields the prototype of the object read.
\<close>

definition object_prototype_names :: "string list" where
  "object_prototype_names =
     [''constructor'', ''__defineGetter__'', ''__defineSetter__'', ''hasOwnProperty'',
      ''__lookupGetter__'', ''__lookupSetter__'', ''isPrototypeOf'',
      ''propertyIsEnumerable'', ''toString'', ''valueOf'', ''__proto__'',
      ''toLocaleString'']"

text \<open>
  What a property read yields: a data value, or the member of \<open>Object.prototype\<close> of
  that name (for \<open>__proto__\<close>: \<open>Object.prototype\<close> itself). The inherited values are
  truthy, are not \<open>null\<close> or \<open>undefined\<close>, and have no enumerable own property.
\<close>

datatype ref = Val jsval | Inherited string

fun truthy_ref :: "ref \<Rightarrow> bool" where
  "truthy_ref (Val v) = truthy v"
| "truthy_ref (Inherited n) = True"

text \<open>\<^verbatim>\<open>x ?? null\<close>\<close>

fun or_null :: "ref \<Rightarrow> ref" where
  "or_null (Val JUndefined) = Val JNull"
| "or_null r = r"

definition object_prototype_get :: "string \<Rightarrow> ref" where
  "object_prototype_get key =
     (if key \<in> set object_prototype_names then Inherited key else Val JUndefined)"

text \<open>
  The prototype of a table. It is \<open>Object.prototype\<close> unless an assignment to the key
  \<open>__proto__\<close> has reached the accessor of \<open>Object.prototype\<close>, which replaces the
  prototype by the object or array assigned, or removes it when \<open>null\<close> is assigned.
\<close>

datatype proto = ObjectPrototype | NullPrototype | DataPrototype jsval

text \<open>
  What \<open>cache[name]\<close> holds: a table (own properties and prototype); any other value
  \<open>JSON.parse\<close> returned for the table's file; or, for a name that \<open>cache\<close> inherits
  from \<open>Object.prototype\<close>, that member.
\<close>

datatype tref = Table "(string, jsval) fmap" proto | Plain jsval | Builtin string

fun truthy_tref :: "tref \<Rightarrow> bool" where
  "truthy_tref (Table m p) = True"
| "truthy_tref (Plain v) = truthy v"
| "truthy_tref (Builtin n) = True"

definition empty_table :: tref where
  "empty_table = Table fmempty ObjectPrototype"

fun cell_of :: "jsval \<Rightarrow> tref" where
  "cell_of (JObj m) = Table m ObjectPrototype"
| "cell_of v = Plain v"

subsection \<open>Decimal names of array indices\<close>

definition digit_char :: "nat \<Rightarrow> char" where
  "digit_char n = ''0123456789'' ! n"

fun string_of_nat :: "nat \<Rightarrow> string" where
  "string_of_nat n =
     (if n < 10 then [digit_char n] else string_of_nat (n div 10) @ [digit_char (n mod 10)])"

declare string_of_nat.simps [simp del]

definition is_digit :: "char \<Rightarrow> bool" where
  "is_digit c = (c \<in> set ''0123456789'')"

definition digit_value :: "char \<Rightarrow> nat" where
  "digit_value c = of_char c - 48"

definition nat_of_string :: "string \<Rightarrow> nat" where
  "nat_of_string s = foldl (\<lambda>n c. 10 * n + digit_value c) 0 s"

text \<open>
  An array index is the canonical decimal name of an integer from \<open>0\<close> to
  \<open>2\<^sup>3\<^sup>2 - 2\<close>. \<open>Object.keys\<close> lists the array indices first, in ascending order,
  and then the other own keys in the order of their creation.
\<close>

definition is_array_index :: "string \<Rightarrow> bool" where
  "is_array_index s =
     (s \<noteq> [] \<and> list_all is_digit s \<and> (s = ''0'' \<or> hd s \<noteq> CHR ''0'') \<and>
      nat_of_string s < 2 ^ 32 - 1)"

definition Object_keys :: "(string \<times> 'a) list \<Rightarrow> string list" where
  "Object_keys props =
     (let ks = map fst props
      in sort_key nat_of_string (filter is_array_index ks) @
         filter (\<lambda>k. \<not> is_array_index k) ks)"

subsection \<open>Object spread\<close>

text \<open>
  \<^verbatim>\<open>{ ...x }\<close> copies the enumerable own properties of \<open>x\<close>: the properties of an
  object, the elements of an array and the characters of a string under their indices,
  and nothing for any other value.
\<close>

fun spread :: "ref \<Rightarrow> (string, jsval) fmap" where
  "spread (Val (JObj m)) = m"
| "spread (Val (JArr xs)) = fmap_of_list (zip (map string_of_nat [0..<length xs]) xs)"
| "spread (Val (JStr s)) =
     fmap_of_list (zip (map string_of_nat [0..<length s]) (map (\<lambda>c. JStr [c]) s))"
| "spread r = fmempty"

text \<open>\<^verbatim>\<open>x || {}\<close>\<close>

definition or_empty_object :: "ref \<Rightarrow> ref" where
  "or_empty_object r = (if truthy_ref r then r else Val (JObj fmempty))"

section \<open>The store\<close>

text \<open>
  A file holds either a JSON text, represented by the value \<open>JSON.parse\<close> returns for
  it (a value without \<open>undefined\<close>, \<open>NaN\<close>, an infinity or \<open>-0\<close>), or a text that
  \<open>JSON.parse\<close> rejects. \<open>JSON.stringify\<close> writes the JSON image of a value: an
  object loses the properties whose value is \<open>undefined\<close>, an array element
  \<open>undefined\<close> becomes \<open>null\<close>, \<open>NaN\<close> and the infinities become \<open>null\<close>,
  \<open>-0\<close> becomes \<open>0\<close>, and \<open>undefined\<close> or a function alone has no JSON text.
\<close>

datatype content = JsonText jsval | OtherText string

fun JSON_parse :: "content \<Rightarrow> jsval option" where
  "JSON_parse (JsonText v) = Some v"
| "JSON_parse (OtherText s) = None"

primrec json_image :: "jsval \<Rightarrow> jsval" where
  "json_image JUndefined = JNull"
| "json_image JNull = JNull"
| "json_image (JBool b) = JBool b"
| "json_image (JNum n) = JNum n"
| "json_image JNaN = JNull"
| "json_image JPosInfinity = JNull"
| "json_image JNegInfinity = JNull"
| "json_image JNegZero = JNum 0"
| "json_image (JStr s) = JStr s"
| "json_image (JArr xs) = JArr (map json_image xs)"
| "json_image (JObj m) =
     JObj (fmfilter (\<lambda>k. fmlookup m k \<noteq> Some JUndefined) (fmmap json_image m))"

fun JSON_stringify :: "tref \<Rightarrow> content option" where
  "JSON_stringify (Table m p) = Some (JsonText (json_image (JObj m)))"
| "JSON_stringify (Plain JUndefined) = None"
| "JSON_stringify (Plain v) = Some (JsonText (json_image v))"
| "JSON_stringify (Builtin n) =
     (if n = ''__proto__'' then Some (JsonText (JObj fmempty)) else None)"

text \<open>
  The values that \<open>JSON.stringify\<close> and \<open>JSON.parse\<close> give back unchanged: those
  without \<open>undefined\<close>, \<open>NaN\<close>, an infinity or \<open>-0\<close>.
\<close>

primrec json_safe :: "jsval \<Rightarrow> bool" where
  "json_safe JUndefined = False"
| "json_safe JNull = True"
| "json_safe (JBool b) = True"
| "json_safe (JNum n) = True"
| "json_safe JNaN = False"
| "json_safe JPosInfinity = False"
| "json_safe JNegInfinity = False"
| "json_safe JNegZero = False"
| "json_safe (JStr s) = True"
| "json_safe (JArr xs) = list_all (\<lambda>b. b) (map json_safe xs)"
| "json_safe (JObj m) = fmpred (\<lambda>k b. b) (fmmap json_safe m)"

text \<open>
  The state of the process and of its disk. A timer is its handle, the table it was armed
  for and the time at which it is due; \<open>timers\<close> holds the timers that are armed and
  have neither fired nor been cleared. \<open>writeQueues\<close> holds the own properties of the
  object of that name, in the order of their creation. \<open>unreadable\<close> and
  \<open>unwritable\<close> list the paths at which \<open>readFileSync\<close> and \<open>writeFileSync\<close>
  throw; \<open>write_log\<close> records every text handed to \<open>writeFileSync\<close>, with the table,
  the path and whether the write succeeded.
\<close>

type_synonym timer = "nat \<times> string \<times> nat"

record state =
  dirname :: string
  cache :: "(string, tref) fmap"
  writeQueues :: "(string \<times> nat) list"
  timers :: "timer list"
  next_timer :: nat
  clock :: nat
  files :: "(string, content) fmap"
  unreadable :: "string list"
  unwritable :: "string list"
  write_log :: "(string \<times> string \<times> content \<times> bool) list"

datatype js_error = TypeError

text \<open>
  The result of an operation: it returns, or it throws, or it meets a value that the
  model does not represent (a property of a builtin object, of a value that is not a
  plain object, or one read through an array installed as prototype). An operation that
  only reads such a value is \<open>Unknown\<close>: what it returns, or whether the read throws, is
  open, but the state it leaves is known. An operation whose further course depends on
  such a value (it goes on to write, or to compute with it) is \<open>Unmodelled\<close>.
\<close>

datatype 'a outcome =
    Returns state 'a
  | Throws state js_error
  | Unknown state
  | Unmodelled

definition readFileSync :: "state \<Rightarrow> string \<Rightarrow> content option" where
  "readFileSync st file =
     (if file \<in> set (unreadable st) then None else fmlookup (files st) file)"

definition writeFileSync :: "state \<Rightarrow> string \<Rightarrow> string \<Rightarrow> content \<Rightarrow> state" where
  "writeFileSync st name file data =
     (if file \<in> set (unwritable st)
      then st\<lparr>write_log := write_log st @ [(name, file, data, False)]\<rparr>
      else st\<lparr>files := fmupd file data (files st),
              write_log := write_log st @ [(name, file, data, True)]\<rparr>)"

text \<open>\<open>cache[name]\<close>: the own property, else the member of \<open>Object.prototype\<close>.\<close>

definition cache_get :: "state \<Rightarrow> string \<Rightarrow> tref option" where
  "cache_get st name =
     (case fmlookup (cache st) name of
        Some r \<Rightarrow> Some r
      | None \<Rightarrow> if name \<in> set object_prototype_names then Some (Builtin name) else None)"

text \<open>
  \<^verbatim>\<open>
  function loadTable(name) {
    if (cache[name]) return cache[name];
    const file = dbFile(name);
    try {
      cache[name] = JSON.parse(fs.readFileSync(file, 'utf8'));
    } catch {
      cache[name] = {};
    }
    return cache[name];
  }\<close>
\<close>

definition cache_hit :: "state \<Rightarrow> string \<Rightarrow> tref option" where
  "cache_hit st name =
     (case cache_get st name of
        None \<Rightarrow> None
      | Some r \<Rightarrow> if truthy_tref r then Some r else None)"

definition read_table :: "state \<Rightarrow> string \<Rightarrow> tref" where
  "read_table st file =
     (case readFileSync st file of
        None \<Rightarrow> empty_table
      | Some text \<Rightarrow>
          (case JSON_parse text of
             None \<Rightarrow> empty_table
           | Some v \<Rightarrow> cell_of v))"

definition loadTable :: "state \<Rightarrow> string \<Rightarrow> state \<times> tref" where
  "loadTable st name =
     (case cache_hit st name of
        Some r \<Rightarrow> (st, r)
      | None \<Rightarrow>
          let file = dbFile (dirname st) name;
              r = read_table st file
          in (st\<lparr>cache := fmupd name r (cache st)\<rparr>, r))"

text \<open>\<open>clearTimeout\<close> of a handle; of any other value it does nothing.\<close>

definition clearTimeout :: "state \<Rightarrow> nat \<Rightarrow> state" where
  "clearTimeout st h = st\<lparr>timers := filter (\<lambda>(h', n, due). h' \<noteq> h) (timers st)\<rparr>"

text \<open>
  The body shared by the timer's callback and \<open>flushAll\<close>:
  \<^verbatim>\<open>
  try {
    fs.writeFileSync(dbFile(name), JSON.stringify(cache[name] || {}, null, 2));
  } catch {}\<close>
\<close>

definition cache_or_empty :: "state \<Rightarrow> string \<Rightarrow> tref" where
  "cache_or_empty st name =
     (case cache_get st name of
        None \<Rightarrow> empty_table
      | Some r \<Rightarrow> if truthy_tref r then r else empty_table)"

definition try_write :: "state \<Rightarrow> string \<Rightarrow> state" where
  "try_write st name =
     (case JSON_stringify (cache_or_empty st name) of
        None \<Rightarrow> st
      | Some data \<Rightarrow> writeFileSync st name (dbFile (dirname st) name) data)"

text \<open>
  \<^verbatim>\<open>
  function saveTable(name) {
    if (writeQueues[name]) clearTimeout(writeQueues[name]);
    writeQueues[name] = setTimeout(() => {
      try { ... } catch {}
      delete writeQueues[name];
    }, 500);
  }\<close>
  A name that \<open>writeQueues\<close> only inherits reads as a function, which
  \<open>clearTimeout\<close> ignores. The assignment creates or updates the own property, except
  for the name \<open>__proto__\<close> when it is not an own property: there it would make the
  timer the prototype of \<open>writeQueues\<close>, which the model does not follow.
\<close>

definition saveTable :: "state \<Rightarrow> string \<Rightarrow> state option" where
  "saveTable st name =
     (let st1 = (case map_of (writeQueues st) name of
                   Some h \<Rightarrow> clearTimeout st h
                 | None \<Rightarrow> st);
          h = next_timer st1;
          st2 = st1\<lparr>timers := timers st1 @ [(h, name, clock st1 + 500)],
                    next_timer := Suc h\<rparr>
      in if name = ''__proto__'' \<and> map_of (writeQueues st) name = None then None
         else Some (st2\<lparr>writeQueues := AList.update name h (writeQueues st2)\<rparr>))"

definition on_timeout :: "state \<Rightarrow> string \<Rightarrow> state" where
  "on_timeout st name =
     (let st1 = try_write st name
      in st1\<lparr>writeQueues := AList.delete name (writeQueues st1)\<rparr>)"

section \<open>The record operations\<close>

text \<open>
  \<open>db[key]\<close> on a table: the own property; else the property found along the
  prototype chain, where the accessor \<open>__proto__\<close> of \<open>Object.prototype\<close> yields the
  prototype of the table. An array installed as prototype answers only for
  \<open>__proto__\<close>; for the other keys the read is outside the model (\<open>None\<close>).
\<close>

definition table_read :: "(string, jsval) fmap \<Rightarrow> proto \<Rightarrow> string \<Rightarrow> ref option" where
  "table_read m p key =
     (case fmlookup m key of
        Some v \<Rightarrow> Some (Val v)
      | None \<Rightarrow>
          (case p of
             NullPrototype \<Rightarrow> Some (Val JUndefined)
           | ObjectPrototype \<Rightarrow> Some (object_prototype_get key)
           | DataPrototype d \<Rightarrow>
               (case d of
                  JObj pm \<Rightarrow>
                    (case fmlookup pm key of
                       Some v \<Rightarrow> Some (Val v)
                     | None \<Rightarrow>
                         if key = ''__proto__'' then Some (Val d)
                         else Some (object_prototype_get key))
                | JArr xs \<Rightarrow> if key = ''__proto__'' then Some (Val d) else None
                | _ \<Rightarrow> None)))"

text \<open>
  Whether an assignment to \<open>__proto__\<close> on a table without that own property reaches the
  accessor of \<open>Object.prototype\<close>: not with a \<open>null\<close> prototype, and not when the
  prototype has an own data property of that name.
\<close>

fun reaches_accessor :: "proto \<Rightarrow> bool" where
  "reaches_accessor ObjectPrototype = True"
| "reaches_accessor NullPrototype = False"
| "reaches_accessor (DataPrototype (JObj pm)) = (''__proto__'' |\<notin>| fmdom pm)"
| "reaches_accessor (DataPrototype d) = True"

text \<open>
  The accessor's setter: an object or array becomes the prototype, \<open>null\<close> removes the
  prototype, any other value is ignored.
\<close>

fun set_prototype :: "proto \<Rightarrow> jsval \<Rightarrow> proto" where
  "set_prototype p (JObj pm) = DataPrototype (JObj pm)"
| "set_prototype p (JArr xs) = DataPrototype (JArr xs)"
| "set_prototype p JNull = NullPrototype"
| "set_prototype p v = p"

text \<open>
  \<open>db[key] = v\<close> on a table: an own property is updated; otherwise the property is
  created, unless the key is \<open>__proto__\<close> and the accessor is reached.
\<close>

definition table_write ::
  "(string, jsval) fmap \<Rightarrow> proto \<Rightarrow> string \<Rightarrow> jsval \<Rightarrow> (string, jsval) fmap \<times> proto" where
  "table_write m p key v =
     (if key |\<in>| fmdom m then (fmupd key v m, p)
      else if key = ''__proto__'' \<and> reaches_accessor p then (m, set_prototype p v)
      else (fmupd key v m, p))"

text \<open>
  \<^verbatim>\<open>
  function get(table, key) {
    const db = loadTable(table);
    return db[key] ?? null;
  }\<close>
\<close>

definition get :: "state \<Rightarrow> string \<Rightarrow> string \<Rightarrow> ref outcome" where
  "get st table key =
     (case loadTable st table of
        (st1, db) \<Rightarrow>
          (case db of
             Table m p \<Rightarrow>
               (case table_read m p key of
                  None \<Rightarrow> Unknown st1
                | Some r \<Rightarrow> Returns st1 (or_null r))
           | Plain v \<Rightarrow>
               if v = JNull \<or> v = JUndefined then Throws st1 TypeError else Unknown st1
           | Builtin n \<Rightarrow> Unknown st1))"

text \<open>
  \<^verbatim>\<open>
  function set(table, key, value) {
    const db = loadTable(table);
    if (typeof value === 'object' && value !== null && !Array.isArray(value)) {
      db[key] = { ...(db[key] || {}), ...value };
    } else {
      db[key] = value;
    }
    saveTable(table);
  }\<close>
\<close>

definition new_record ::
  "(string, jsval) fmap \<Rightarrow> proto \<Rightarrow> string \<Rightarrow> jsval \<Rightarrow> jsval option" where
  "new_record m p key value =
     (case value of
        JObj new \<Rightarrow>
          (case table_read m p key of
             None \<Rightarrow> None
           | Some old \<Rightarrow> Some (JObj (spread (or_empty_object old) ++\<^sub>f new)))
      | _ \<Rightarrow> Some value)"

definition set_db :: "state \<Rightarrow> string \<Rightarrow> string \<Rightarrow> jsval \<Rightarrow> unit outcome" where
  "set_db st table key value =
     (case loadTable st table of
        (st1, db) \<Rightarrow>
          (case db of
             Table m p \<Rightarrow>
               (case new_record m p key value of
                  None \<Rightarrow> Unmodelled
                | Some v \<Rightarrow>
                    (case table_write m p key v of
                       (m', p') \<Rightarrow>
                         (case saveTable (st1\<lparr>cache := fmupd table (Table m' p') (cache st1)\<rparr>) table of
                            None \<Rightarrow> Unmodelled
                          | Some st2 \<Rightarrow> Returns st2 ())))
           | Plain v \<Rightarrow>
               if v = JNull \<or> v = JUndefined then Throws st1 TypeError else Unmodelled
           | Builtin n \<Rightarrow> Unmodelled))"

text \<open>
  \<^verbatim>\<open>
  function del(table, key) {
    const db = loadTable(table);
    delete db[key];
    saveTable(table);
  }\<close>
\<close>

definition del :: "state \<Rightarrow> string \<Rightarrow> string \<Rightarrow> unit outcome" where
  "del st table key =
     (case loadTable st table of
        (st1, db) \<Rightarrow>
          (case db of
             Table m p \<Rightarrow>
               (case saveTable (st1\<lparr>cache := fmupd table (Table (fmdrop key m) p) (cache st1)\<rparr>) table of
                  None \<Rightarrow> Unmodelled
                | Some st2 \<Rightarrow> Returns st2 ())
           | Plain v \<Rightarrow>
               if v = JNull \<or> v = JUndefined then Throws st1 TypeError else Unmodelled
           | Builtin n \<Rightarrow> Unmodelled))"

text \<open>
  \<^verbatim>\<open>
  function getAll(table) {
    return loadTable(table);
  }\<close>
\<close>

definition getAll :: "state \<Rightarrow> string \<Rightarrow> state \<times> tref" where
  "getAll st table = loadTable st table"

text \<open>
  \<^verbatim>\<open>
  function flushAll() {
    for (const name of Object.keys(writeQueues)) {
      clearTimeout(writeQueues[name]);
      try { ... } catch {}
    }
  }\<close>
\<close>

definition flush_one :: "string \<Rightarrow> state \<Rightarrow> state" where
  "flush_one name st =
     try_write (case map_of (writeQueues st) name of
                  Some h \<Rightarrow> clearTimeout st h
                | None \<Rightarrow> st) name"

definition flushAll :: "state \<Rightarrow> state" where
  "flushAll st = fold flush_one (Object_keys (writeQueues st)) st"

section \<open>Time\<close>

text \<open>
  Time passes between two calls of the store: the timers that fall due fire in the order
  of their due times (timers due at the same time, in the order of their arming), each
  at its due time. The callback arms and clears no timer.
\<close>

definition fire :: "timer \<Rightarrow> state \<Rightarrow> state" where
  "fire tm st = (case tm of (h, name, due) \<Rightarrow> on_timeout (st\<lparr>clock := due\<rparr>) name)"

definition elapse :: "nat \<Rightarrow> state \<Rightarrow> state" where
  "elapse d st =
     (let t = clock st + d;
          due = filter (\<lambda>(h, name, due). due \<le> t) (timers st);
          rest = filter (\<lambda>(h, name, due). \<not> due \<le> t) (timers st);
          st1 = fold fire (sort_key (\<lambda>(h, name, due). due) due) (st\<lparr>timers := rest\<rparr>)
      in st1\<lparr>clock := t\<rparr>)"

section \<open>The economy functions of \<open>Database\<close>\<close>

text \<open>
  \<open>user.balance\<close> for a value \<open>user\<close> that is not \<open>null\<close> or \<open>undefined\<close>: the
  own property of an object, and \<open>undefined\<close> for every other value (no builtin
  prototype has a member of that name).
\<close>

fun member_balance :: "ref \<Rightarrow> jsval" where
  "member_balance (Val (JObj m)) =
     (case fmlookup m ''balance'' of Some v \<Rightarrow> v | None \<Rightarrow> JUndefined)"
| "member_balance r = JUndefined"

text \<open>\<^verbatim>\<open>x || 0\<close>\<close>

definition or_zero :: "jsval \<Rightarrow> jsval" where
  "or_zero v = (if truthy v then v else JNum 0)"

text \<open>\<^verbatim>\<open>get('users', jid) || { balance: 0 }\<close>\<close>

definition or_no_balance :: "ref \<Rightarrow> ref" where
  "or_no_balance r =
     (if truthy_ref r then r else Val (JObj (fmupd ''balance'' (JNum 0) fmempty)))"

text \<open>
  \<open>x + amount\<close> and \<open>x - amount\<close> for an integer \<open>amount\<close>. On a number they add
  and subtract and \<open>true\<close> counts as \<open>1\<close>. The arithmetic is that of doubles, which
  is exact as long as the operands and the result are safe integers (of magnitude below
  \<open>2\<^sup>5\<^sup>3\<close>); beyond that it rounds, and on a string, an array or an object it
  converts between strings and numbers: the model follows neither (\<open>None\<close>), nor the
  arithmetic of \<open>NaN\<close> and the infinities.
\<close>

definition safe_integer :: "int \<Rightarrow> bool" where
  "safe_integer n \<longleftrightarrow> \<bar>n\<bar> \<le> 2 ^ 53 - 1"

fun js_number :: "jsval \<Rightarrow> int option" where
  "js_number (JNum n) = Some n"
| "js_number (JBool b) = Some (if b then 1 else 0)"
| "js_number JNull = Some 0"
| "js_number v = None"

definition js_add :: "jsval \<Rightarrow> int \<Rightarrow> jsval option" where
  "js_add x amount =
     (case js_number x of
        None \<Rightarrow> None
      | Some n \<Rightarrow>
          if safe_integer n \<and> safe_integer amount \<and> safe_integer (n + amount)
          then Some (JNum (n + amount)) else None)"

definition js_sub :: "jsval \<Rightarrow> int \<Rightarrow> int option" where
  "js_sub x amount =
     (case js_number x of
        None \<Rightarrow> None
      | Some n \<Rightarrow>
          if safe_integer n \<and> safe_integer amount \<and> safe_integer (n - amount)
          then Some (n - amount) else None)"

definition balance_object :: "int \<Rightarrow> jsval" where
  "balance_object n = JObj (fmupd ''balance'' (JNum n) fmempty)"

text \<open>
  \<^verbatim>\<open>
  async getBalance(jid) {
    const user = get('users', jid);
    return user ? (user.balance || 0) : 0;
  }\<close>
\<close>

definition getBalance :: "state \<Rightarrow> string \<Rightarrow> jsval outcome" where
  "getBalance st jid =
     (case get st ''users'' jid of
        Returns st1 user \<Rightarrow>
          Returns st1 (if truthy_ref user then or_zero (member_balance user) else JNum 0)
      | Throws st1 e \<Rightarrow> Throws st1 e
      | Unknown st1 \<Rightarrow> Unknown st1
      | Unmodelled \<Rightarrow> Unmodelled)"

text \<open>
  \<^verbatim>\<open>
  async addBalance(jid, amount) {
    const user = get('users', jid) || { balance: 0 };
    set('users', jid, { balance: (user.balance || 0) + amount });
  }\<close>
\<close>

definition addBalance :: "state \<Rightarrow> string \<Rightarrow> int \<Rightarrow> unit outcome" where
  "addBalance st jid amount =
     (case get st ''users'' jid of
        Returns st1 r \<Rightarrow>
          (case js_add (or_zero (member_balance (or_no_balance r))) amount of
             None \<Rightarrow> Unmodelled
           | Some v \<Rightarrow>
               set_db st1 ''users'' jid (JObj (fmupd ''balance'' v fmempty)))
      | Throws st1 e \<Rightarrow> Throws st1 e
      | Unknown st1 \<Rightarrow> Unmodelled
      | Unmodelled \<Rightarrow> Unmodelled)"

text \<open>
  \<^verbatim>\<open>
  async removeBalance(jid, amount) {
    const user = get('users', jid) || { balance: 0 };
    const newBal = Math.max(0, (user.balance || 0) - amount);
    set('users', jid, { balance: newBal });
    return newBal;
  }\<close>
\<close>

definition removeBalance :: "state \<Rightarrow> string \<Rightarrow> int \<Rightarrow> int outcome" where
  "removeBalance st jid amount =
     (case get st ''users'' jid of
        Returns st1 r \<Rightarrow>
          (case js_sub (or_zero (member_balance (or_no_balance r))) amount of
             None \<Rightarrow> Unmodelled
           | Some n \<Rightarrow>
               (let newBal = max 0 n
                in case set_db st1 ''users'' jid (balance_object newBal) of
                     Returns st2 u \<Rightarrow> Returns st2 newBal
                   | Throws st2 e \<Rightarrow> Throws st2 e
                   | Unknown st2 \<Rightarrow> Unmodelled
                   | Unmodelled \<Rightarrow> Unmodelled))
      | Throws st1 e \<Rightarrow> Throws st1 e
      | Unknown st1 \<Rightarrow> Unmodelled
      | Unmodelled \<Rightarrow> Unmodelled)"

section \<open>Observing runs\<close>

text \<open>
  The state of a process that has just loaded the module from directory \<open>d\<close>, on a disk
  whose data folder is empty.
\<close>

definition initial_state :: "string \<Rightarrow> state" where
  "initial_state d =
     \<lparr>dirname = d, cache = fmempty, writeQueues = [], timers = [], next_timer = 0,
      clock = 0, files = fmempty, unreadable = [], unwritable = [], write_log = []\<rparr>"

fun returned :: "'a outcome \<Rightarrow> 'a option" where
  "returned (Returns st x) = Some x"
| "returned (Throws st e) = None"
| "returned (Unknown st) = None"
| "returned Unmodelled = None"

fun state_after :: "'a outcome \<Rightarrow> state option" where
  "state_after (Returns st x) = Some st"
| "state_after (Throws st e) = Some st"
| "state_after (Unknown st) = Some st"
| "state_after Unmodelled = None"

text \<open>
  A run is a sequence of calls of the store, with the time that passes between them. A
  call that throws, or that only reads a value outside the model, leaves the state it
  had reached; a call that is \<open>Unmodelled\<close> ends the run (\<open>None\<close>).
\<close>

datatype event =
    Get string string
  | Set string string jsval
  | Del string string
  | GetAll string
  | FlushAll
  | Elapse nat
  | GetBalance string
  | AddBalance string int
  | RemoveBalance string int

fun exec :: "event \<Rightarrow> state \<Rightarrow> state option" where
  "exec (Get table key) st = state_after (get st table key)"
| "exec (Set table key v) st = state_after (set_db st table key v)"
| "exec (Del table key) st = state_after (del st table key)"
| "exec (GetAll table) st = Some (fst (getAll st table))"
| "exec FlushAll st = Some (flushAll st)"
| "exec (Elapse d) st = Some (elapse d st)"
| "exec (GetBalance jid) st = state_after (getBalance st jid)"
| "exec (AddBalance jid amount) st = state_after (addBalance st jid amount)"
| "exec (RemoveBalance jid amount) st = state_after (removeBalance st jid amount)"

fun run :: "event list \<Rightarrow> state \<Rightarrow> state option" where
  "run [] st = Some st"
| "run (e # es) st = (case exec e st of None \<Rightarrow> None | Some st' \<Rightarrow> run es st')"

text \<open>What \<open>get\<close>, \<open>getAll\<close> and \<open>getBalance\<close> return after a run.\<close>

definition get_after :: "event list \<Rightarrow> state \<Rightarrow> string \<Rightarrow> string \<Rightarrow> ref option" where
  "get_after es st table key =
     (case run es st of None \<Rightarrow> None | Some st' \<Rightarrow> returned (get st' table key))"

definition getAll_after :: "event list \<Rightarrow> state \<Rightarrow> string \<Rightarrow> tref option" where
  "getAll_after es st table =
     (case run es st of None \<Rightarrow> None | Some st' \<Rightarrow> Some (snd (getAll st' table)))"

definition getBalance_after :: "event list \<Rightarrow> state \<Rightarrow> string \<Rightarrow> jsval option" where
  "getBalance_after es st jid =
     (case run es st of None \<Rightarrow> None | Some st' \<Rightarrow> returned (getBalance st' jid))"

text \<open>
  A new process on the same disk: the module is loaded again, so \<open>cache\<close> and
  \<open>writeQueues\<close> are empty and no timer is armed.
\<close>

definition restart :: "state \<Rightarrow> state" where
  "restart st =
     (initial_state (dirname st))
       \<lparr>files := files st, unreadable := unreadable st, unwritable := unwritable st\<rparr>"

text \<open>
  After a run: the file of a table, what a new process loads for the table, and the texts
  that were handed to \<open>writeFileSync\<close> for the table.
\<close>

definition file_after :: "event list \<Rightarrow> state \<Rightarrow> string \<Rightarrow> content option" where
  "file_after es st table =
     (case run es st of
        None \<Rightarrow> None
      | Some st' \<Rightarrow> fmlookup (files st') (dbFile (dirname st') table))"

definition reloaded_after :: "event list \<Rightarrow> state \<Rightarrow> string \<Rightarrow> tref option" where
  "reloaded_after es st table =
     (case run es st of
        None \<Rightarrow> None
      | Some st' \<Rightarrow> Some (snd (loadTable (restart st') table)))"



text \<open>
  The invariant of the timers: the armed timers have different handles, each older than
  the next handle, and each is the one that \<open>writeQueues\<close> holds for its table.
\<close>

definition timers_ok :: "state \<Rightarrow> bool" where
  "timers_ok st \<longleftrightarrow>
     distinct (map fst (timers st)) \<and>
     (\<forall>(h, name, due) \<in> set (timers st).
        h < next_timer st \<and> map_of (writeQueues st) name = Some h)"





text \<open>
  A process in \<open>/bot/src/database\<close> that has loaded the table \<open>users\<close> with the
  mapping \<open>m\<close> and nothing else.
\<close>

definition users_state :: "(string, jsval) fmap \<Rightarrow> state" where
  "users_state m =
     (initial_state ''/bot/src/database'')
       \<lparr>cache := fmupd ''users'' (Table m ObjectPrototype) fmempty\<rparr>"

text \<open>
  A process in which the tables \<open>groups\<close> and \<open>users\<close> have pending writes, on
  a disk that refuses to write the file of \<open>groups\<close>.
\<close>

definition two_pending_state :: state where
  "two_pending_state =
     (initial_state ''/bot/src/database'')
       \<lparr>cache := fmupd ''users'' (Table (fmupd ''u1'' (JNum 1) fmempty) ObjectPrototype)
                  (fmupd ''groups'' (Table (fmupd ''g1'' (JNum 2) fmempty) ObjectPrototype) fmempty),
        writeQueues := [(''groups'', 0), (''users'', 1)],
        timers := [(0, ''groups'', 500), (1, ''users'', 500)],
        next_timer := 2,
        unwritable := [dbFile ''/bot/src/database'' ''groups'']\<rparr>"

text \<open>
  A process that has just started in \<open>/bot/src/database\<close>, where the file of the table
  \<open>users\<close> holds a text that is not JSON.
\<close>

definition corrupt_users_state :: state where
  "corrupt_users_state =
     (initial_state ''/bot/src/database'')
       \<lparr>files := fmupd (dbFile ''/bot/src/database'' ''users'') (OtherText ''{oops'') fmempty\<rparr>"

section \<open>Facts about paths\<close>

lemma split_slash_nonempty: "split_slash xs \<noteq> []"
  by (induction xs) (auto split: list.splits)

lemma split_slash_append:
  "split_slash (xs @ CHR ''/'' # s) = split_slash xs @ split_slash s"
proof (induction xs)
  case Nil
  then show ?case by simp
next
  case (Cons c cs)
  then show ?case
    using split_slash_nonempty [of cs]
    by (cases "split_slash cs") auto
qed

lemma split_slash_plain: "CHR ''/'' \<notin> set s \<Longrightarrow> split_slash s = [s]"
  by (induction s) auto

lemma normalizeString_append:
  "normalizeString a res (xs @ ys) = normalizeString a (normalizeString a res xs) ys"
  by (induction a res xs rule: normalizeString.induct) auto

lemma join_slash_snoc:
  "join_slash (R @ [s]) = (if R = [] then s else join_slash R @ ''/'' @ s)"
  by (induction R rule: join_slash.induct) auto

lemma normalize_file:
  assumes "CHR ''/'' \<notin> set s" "s \<noteq> []" "s \<noteq> ''.''" "s \<noteq> ''..''"
  shows "path_normalize (Q @ CHR ''/'' # s) = dir_prefix Q @ s"
proof -
  let ?p = "Q @ CHR ''/'' # s"
  let ?abs = "hd (Q @ ''/'') = CHR ''/''"
  let ?R = "normalizeString (\<not> ?abs) [] (split_slash Q)"
  have hd: "hd ?p = hd (Q @ ''/'')" by (cases Q) auto
  have "last s \<noteq> CHR ''/''" using assms by (metis last_in_set)
  then have lst: "last ?p \<noteq> CHR ''/''" using assms by simp
  have seg: "normalizeString (\<not> ?abs) [] (split_slash ?p) = ?R @ [s]"
    using assms by (simp add: split_slash_append split_slash_plain normalizeString_append)
  have r: "join_slash (?R @ [s]) \<noteq> []" using assms by (simp add: join_slash_snoc)
  show ?thesis
    unfolding path_normalize_def dir_prefix_def Let_def hd seg
    using lst r assms by (simp add: join_slash_snoc)
qed

lemma normalize_plain:
  assumes "CHR ''/'' \<notin> set s" "s \<noteq> []" "s \<noteq> ''.''" "s \<noteq> ''..''"
  shows "path_normalize s = s"
proof -
  have "hd s \<noteq> CHR ''/''" "last s \<noteq> CHR ''/''"
    using assms by (metis hd_in_set, metis last_in_set)
  then show ?thesis using assms
    by (simp add: path_normalize_def split_slash_plain)
qed

lemma json_name: "CHR ''/'' \<notin> set n \<Longrightarrow>
  CHR ''/'' \<notin> set (n @ ''.json'') \<and> n @ ''.json'' \<noteq> [] \<and> n @ ''.json'' \<noteq> ''.'' \<and> n @ ''.json'' \<noteq> ''..''"
  by (cases n rule: rev_cases) (auto simp: append_eq_Cons_conv)

lemma dbFile_plain:
  assumes "CHR ''/'' \<notin> set n"
  shows "dbFile d n = (if DATA_DIR d = [] then [] else dir_prefix (DATA_DIR d)) @ n @ ''.json''"
proof (cases "DATA_DIR d = []")
  case True
  then show ?thesis using normalize_plain [of "n @ ''.json''"] json_name [OF assms]
    by (simp add: dbFile_def path_join_def)
next
  case False
  then show ?thesis using normalize_file [of "n @ ''.json''" "DATA_DIR d"] json_name [OF assms]
    by (simp add: dbFile_def path_join_def)
qed

section \<open>Facts about the store\<close>

lemma cache_hit_absent:
  "fmlookup (cache st) N = None \<Longrightarrow> N \<notin> set object_prototype_names \<Longrightarrow> cache_hit st N = None"
  by (simp add: cache_hit_def cache_get_def)

text \<open>\<open>loadTable\<close> changes nothing but the cache entry of the table it loads.\<close>

lemma loadTable_frame:
  assumes "loadTable st T = (st1, db)"
  shows "(st1 = st \<and> cache_hit st T = Some db) \<or>
         (cache_hit st T = None \<and> st1 = st\<lparr>cache := fmupd T db (cache st)\<rparr>)"
  using assms by (auto simp: loadTable_def Let_def split: option.splits)

lemma loadTable_other:
  assumes "loadTable st T = (st1, db)"
  shows "writeQueues st1 = writeQueues st \<and> timers st1 = timers st \<and> files st1 = files st \<and>
         write_log st1 = write_log st \<and> next_timer st1 = next_timer st \<and> clock st1 = clock st \<and>
         dirname st1 = dirname st \<and> unreadable st1 = unreadable st \<and> unwritable st1 = unwritable st"
  using loadTable_frame [OF assms] by auto

lemma loadTable_hit:
  "fmlookup (cache st) T = Some r \<Longrightarrow> truthy_tref r \<Longrightarrow> loadTable st T = (st, r)"
  by (simp add: loadTable_def cache_hit_def cache_get_def)

lemma saveTable_cache:
  assumes "T \<noteq> ''__proto__''"
  shows "\<exists>st2. saveTable st T = Some st2 \<and> cache st2 = cache st \<and> files st2 = files st"
  using assms by (simp add: saveTable_def Let_def clearTimeout_def split: option.splits)

lemma set_db_Table:
  assumes "loadTable st T = (st1, Table m p)" and "T \<noteq> ''__proto__''"
    and "new_record m p K V = Some v"
  shows "\<exists>st2. set_db st T K V = Returns st2 () \<and>
           cache st2 = fmupd T (Table (fst (table_write m p K v)) (snd (table_write m p K v))) (cache st1)"
proof -
  obtain m' p' where w: "table_write m p K v = (m', p')" by (cases "table_write m p K v")
  let ?s = "st1\<lparr>cache := fmupd T (Table m' p') (cache st1)\<rparr>"
  obtain st2 where s: "saveTable ?s T = Some st2" "cache st2 = cache ?s"
    using saveTable_cache [OF assms(2), of ?s] by auto
  show ?thesis using assms(1,3) w s by (simp add: set_db_def)
qed

lemma get_cached:
  assumes "fmlookup (cache st) T = Some (Table m p)" and "table_read m p K = Some r"
  shows "get st T K = Returns st (or_null r)"
  using assms by (simp add: get_def loadTable_hit)

lemma set_then_get:
  assumes "loadTable st T = (st1, Table m p)" and "T \<noteq> ''__proto__''"
    and "new_record m p K V = Some v" and "table_write m p K v = (m', p')"
    and "table_read m' p' K = Some r"
  shows "\<exists>st2. set_db st T K V = Returns st2 () \<and> getAll st2 T = (st2, Table m' p') \<and>
           get st2 T K = Returns st2 (or_null r)"
proof -
  obtain st2 where s: "set_db st T K V = Returns st2 ()"
     "cache st2 = fmupd T (Table m' p') (cache st1)"
    using set_db_Table [OF assms(1,2,3)] assms(4) by auto
  have c: "fmlookup (cache st2) T = Some (Table m' p')" using s by simp
  show ?thesis using s(1) get_cached [OF c assms(5)] loadTable_hit [OF c]
    by (simp add: getAll_def)
qed

lemma loadTable_idem:
  assumes "loadTable st T = (st1, r)" and "truthy_tref r"
  shows "loadTable st1 T = (st1, r)"
proof -
  have "fmlookup (cache st1) T = Some r \<or> (st1 = st \<and> cache_hit st T = Some r)"
    using assms(1) by (auto simp: loadTable_def Let_def split: option.splits)
  then show ?thesis
  proof
    assume "fmlookup (cache st1) T = Some r"
    then show ?thesis using assms(2) by (rule loadTable_hit)
  next
    assume "st1 = st \<and> cache_hit st T = Some r"
    then show ?thesis by (simp add: loadTable_def)
  qed
qed

lemma get_Returns_iff:
  "get st T K = Returns st1 r \<longleftrightarrow>
     (\<exists>m p r'. loadTable st T = (st1, Table m p) \<and> table_read m p K = Some r' \<and> r = or_null r')"
  by (auto simp: get_def split: prod.splits tref.splits option.splits if_splits)

lemma string_of_nat_digits: "set (string_of_nat n) \<subseteq> set ''0123456789''"
proof (induction n rule: string_of_nat.induct)
  case (1 n)
  have d: "\<And>k. k < 10 \<Longrightarrow> digit_char k \<in> set ''0123456789''"
    unfolding digit_char_def by (rule nth_mem) simp
  show ?case
  proof (cases "n < 10")
    case True
    then show ?thesis using d [of n] by (subst string_of_nat.simps) simp
  next
    case False
    then show ?thesis using 1 d [of "n mod 10"]
      by (subst string_of_nat.simps) auto
  qed
qed

lemma string_of_nat_not_proto: "string_of_nat n \<noteq> ''__proto__''"
proof
  assume e: "string_of_nat n = ''__proto__''"
  have "CHR ''_'' \<in> set ''__proto__''" by simp
  then have "CHR ''_'' \<in> set (string_of_nat n)" by (simp only: e)
  then have "CHR ''_'' \<in> set ''0123456789''" using string_of_nat_digits [of n] by blast
  then show False by simp
qed

lemma index_names_not_proto:
  "fmlookup (fmap_of_list (zip (map string_of_nat ns) xs)) ''__proto__'' = None"
proof -
  have "''__proto__'' \<notin> fst ` set (zip (map string_of_nat ns) xs)"
  proof
    assume "''__proto__'' \<in> fst ` set (zip (map string_of_nat ns) xs)"
    then obtain y where "(''__proto__'', y) \<in> set (zip (map string_of_nat ns) xs)"
      by force
    then have "''__proto__'' \<in> set (map string_of_nat ns)" by (rule set_zip_leftD)
    then have "''__proto__'' \<in> string_of_nat ` set ns" by (simp only: set_map)
    then obtain n where "''__proto__'' = string_of_nat n" by (rule imageE)
    then show False using string_of_nat_not_proto [of n] by simp
  qed
  then have "map_of (zip (map string_of_nat ns) xs) ''__proto__'' = None"
    by (rule iffD2 [OF map_of_eq_None_iff])
  then show ?thesis by (simp only: fmlookup_of_list)
qed
lemma spread_old_no_proto:
  assumes "fmlookup m ''__proto__'' = None" and "reaches_accessor p"
    and "table_read m p ''__proto__'' = Some old"
  shows "fmlookup (spread (or_empty_object old)) ''__proto__'' = None"
proof (cases p)
  case ObjectPrototype
  then show ?thesis using assms
    by (auto simp: table_read_def object_prototype_get_def object_prototype_names_def or_empty_object_def)
next
  case NullPrototype
  then show ?thesis using assms by simp
next
  case (DataPrototype d)
  show ?thesis
  proof (cases d)
    case (JObj pm)
    then show ?thesis using assms DataPrototype
      by (auto simp: table_read_def or_empty_object_def fmlookup_dom_iff split: option.splits)
  next
    case (JArr xs)
    then show ?thesis using assms DataPrototype
      by (auto simp: table_read_def or_empty_object_def index_names_not_proto)
  qed (use assms DataPrototype in \<open>auto simp: table_read_def\<close>)
qed

lemma write_read_object:
  assumes "table_read m p K = Some old"
    and "table_write m p K (JObj (spread (or_empty_object old) ++\<^sub>f new)) = (m', p')"
    and "fmlookup new ''__proto__'' = None"
  shows "table_read m' p' K = Some (Val (JObj (spread (or_empty_object old) ++\<^sub>f new)))"
proof (cases "K = ''__proto__'' \<and> fmlookup m K = None \<and> reaches_accessor p")
  case True
  then have s: "fmlookup (spread (or_empty_object old)) ''__proto__'' = None"
    using spread_old_no_proto assms(1) by blast
  have "m' = m" "p' = DataPrototype (JObj (spread (or_empty_object old) ++\<^sub>f new))"
    using True assms(2) by (auto simp: table_write_def fmlookup_dom_iff)
  then show ?thesis using True s assms(3) by (auto simp: table_read_def)
next
  case False
  then have "m' = fmupd K (JObj (spread (or_empty_object old) ++\<^sub>f new)) m" "p' = p"
    using assms(2) by (auto simp: table_write_def fmlookup_dom_iff split: if_splits)
  then show ?thesis by (simp add: table_read_def)
qed

lemma set_merges_existing:
  assumes "loadTable st T = (st1, Table m p)" and "T \<noteq> ''__proto__''"
    and "fmlookup m K = Some (JObj e)"
  shows "\<exists>st2. set_db st T K (JObj v) = Returns st2 () \<and>
           getAll st2 T = (st2, Table (fmupd K (JObj (e ++\<^sub>f v)) m) p) \<and>
           get st2 T K = Returns st2 (Val (JObj (e ++\<^sub>f v)))"
proof -
  have n: "new_record m p K (JObj v) = Some (JObj (e ++\<^sub>f v))"
    using assms(3) by (simp add: new_record_def table_read_def or_empty_object_def)
  have w: "table_write m p K (JObj (e ++\<^sub>f v)) = (fmupd K (JObj (e ++\<^sub>f v)) m, p)"
    using assms(3) by (simp add: table_write_def fmdomI)
  have r: "table_read (fmupd K (JObj (e ++\<^sub>f v)) m) p K = Some (Val (JObj (e ++\<^sub>f v)))"
    by (simp add: table_read_def)
  show ?thesis using set_then_get [OF assms(1,2) n w r] by simp
qed

lemma read_absent_default:
  assumes "fmlookup m K = None"
  shows "\<exists>r. table_read m ObjectPrototype K = Some r \<and> spread (or_empty_object r) = fmempty"
  using assms
  by (simp add: table_read_def object_prototype_get_def or_empty_object_def)

lemma set_twice_fresh:
  assumes "loadTable st T = (st1, Table m ObjectPrototype)" and "T \<noteq> ''__proto__''"
    and "fmlookup m K = None"
  shows "get_after [Set T K (JObj (fmupd ''a'' (JNum 1) fmempty)),
                    Set T K (JObj (fmupd ''b'' (JNum 2) fmempty))] st T K
         = Some (Val (JObj (fmupd ''b'' (JNum 2) (fmupd ''a'' (JNum 1) fmempty))))"
proof -
  let ?a = "fmupd ''a'' (JNum 1) fmempty"
  let ?b = "fmupd ''b'' (JNum 2) fmempty"
  let ?ab = "fmupd ''b'' (JNum 2) (fmupd ''a'' (JNum 1) fmempty)"
  define m' where "m' = (if K = ''__proto__'' then m else fmupd K (JObj ?a) m)"
  define p' where "p' = (if K = ''__proto__'' then DataPrototype (JObj ?a) else ObjectPrototype)"
  define m'' where "m'' = (if K = ''__proto__'' then m else fmupd K (JObj ?ab) m)"
  define p'' where "p'' = (if K = ''__proto__'' then DataPrototype (JObj ?ab) else ObjectPrototype)"
  have n1: "new_record m ObjectPrototype K (JObj ?a) = Some (JObj ?a)"
    using read_absent_default [OF assms(3)] by (auto simp: new_record_def)
  have w1: "table_write m ObjectPrototype K (JObj ?a) = (m', p')"
    using assms(3) by (auto simp: table_write_def m'_def p'_def fmdom_notI)
  have r1: "table_read m' p' K = Some (Val (JObj ?a))"
    using assms(3) by (auto simp: table_read_def m'_def p'_def)
  obtain st2 where s2: "set_db st T K (JObj ?a) = Returns st2 ()"
      "getAll st2 T = (st2, Table m' p')"
    using set_then_get [OF assms(1,2) n1 w1 r1] by auto
  have l2: "loadTable st2 T = (st2, Table m' p')" using s2(2) by (simp add: getAll_def)
  have n2: "new_record m' p' K (JObj ?b) = Some (JObj ?ab)"
    using r1 by (simp add: new_record_def or_empty_object_def)
  have w2: "table_write m' p' K (JObj ?ab) = (m'', p'')"
    using assms(3) by (auto simp: table_write_def m'_def p'_def m''_def p''_def fmdom_notI)
  have r2: "table_read m'' p'' K = Some (Val (JObj ?ab))"
    using assms(3) by (auto simp: table_read_def m''_def p''_def)
  obtain st3 where s3: "set_db st2 T K (JObj ?b) = Returns st3 ()"
      "get st3 T K = Returns st3 (or_null (Val (JObj ?ab)))"
    using set_then_get [OF l2 assms(2) n2 w2 r2] by auto
  show ?thesis using s2(1) s3 by (simp add: get_after_def)
qed

lemma new_record_scalar: "\<not> is_plain_object V \<Longrightarrow> new_record m p K V = Some V"
  by (cases V) (simp_all add: new_record_def)

lemma set_replaces:
  assumes "loadTable st T = (st1, Table m p)" and "T \<noteq> ''__proto__''"
    and "\<not> is_plain_object V" and "K \<noteq> ''__proto__'' \<or> K |\<in>| fmdom m"
  shows "\<exists>st2. set_db st T K V = Returns st2 () \<and>
           getAll st2 T = (st2, Table (fmupd K V m) p) \<and>
           get st2 T K = Returns st2 (or_null (Val V))"
proof -
  have w: "table_write m p K V = (fmupd K V m, p)"
    using assms(4) by (auto simp: table_write_def)
  have r: "table_read (fmupd K V m) p K = Some (Val V)" by (simp add: table_read_def)
  show ?thesis
    using set_then_get [OF assms(1,2) new_record_scalar [OF assms(3)] w r] .
qed

lemma set_list_any_key:
  assumes "loadTable st T = (st1, Table m p)" and "T \<noteq> ''__proto__''"
  shows "get_after [Set T K (JArr xs)] st T K = Some (Val (JArr xs))"
proof -
  obtain m' p' where w: "table_write m p K (JArr xs) = (m', p')"
    by (cases "table_write m p K (JArr xs)")
  have r: "table_read m' p' K = Some (Val (JArr xs))"
    using w by (auto simp: table_write_def table_read_def split: if_splits dest: fmdom_notD)
  have n: "new_record m p K (JArr xs) = Some (JArr xs)" by (simp add: new_record_def)
  obtain st2 where "set_db st T K (JArr xs) = Returns st2 ()"
     "get st2 T K = Returns st2 (or_null (Val (JArr xs)))"
    using set_then_get [OF assms n w r] by auto
  then show ?thesis by (simp add: get_after_def)
qed

lemma users_state_load:
  "loadTable (users_state m) ''users'' = (users_state m, Table m ObjectPrototype)"
  by (simp add: users_state_def loadTable_hit)

lemma getBalance_number:
  assumes "getBalance st jid = Returns st1 (JNum b)"
  shows "\<exists>m p old. loadTable st ''users'' = (st1, Table m p) \<and> table_read m p jid = Some old \<and>
           get st ''users'' jid = Returns st1 (or_null old) \<and>
           or_zero (member_balance (or_no_balance (or_null old))) = JNum b"
proof -
  obtain user where g: "get st ''users'' jid = Returns st1 user"
    and v: "(if truthy_ref user then or_zero (member_balance user) else JNum 0) = JNum b"
    using assms by (auto simp: getBalance_def split: outcome.splits)
  obtain m p old where l: "loadTable st ''users'' = (st1, Table m p)"
     "table_read m p jid = Some old" "user = or_null old"
    using g by (auto simp: get_Returns_iff)
  have "or_zero (member_balance (or_no_balance user)) = JNum b"
    using v by (auto simp: or_no_balance_def or_zero_def split: if_splits)
  then show ?thesis using l g by auto
qed

lemma removeBalance_number:
  assumes "getBalance st jid = Returns st1 (JNum b)"
    and safe: "safe_integer b" "safe_integer amount" "safe_integer (b - amount)"
  shows "\<exists>st2. removeBalance st jid amount = Returns st2 (max 0 (b - amount)) \<and>
           getBalance st2 jid = Returns st2 (JNum (max 0 (b - amount)))"
proof -
  let ?nb = "max 0 (b - amount)"
  let ?new = "fmupd ''balance'' (JNum ?nb) fmempty"
  obtain m p old where l: "loadTable st ''users'' = (st1, Table m p)"
     and r: "table_read m p jid = Some old"
     and g: "get st ''users'' jid = Returns st1 (or_null old)"
     and v: "or_zero (member_balance (or_no_balance (or_null old))) = JNum b"
    using getBalance_number [OF assms(1)] by blast
  let ?merged = "spread (or_empty_object old) ++\<^sub>f ?new"
  have l1: "loadTable st1 ''users'' = (st1, Table m p)"
    using loadTable_idem [OF l] by simp
  have n: "new_record m p jid (balance_object ?nb) = Some (JObj ?merged)"
    using r by (simp add: new_record_def balance_object_def)
  obtain m' p' where w: "table_write m p jid (JObj ?merged) = (m', p')"
    by (cases "table_write m p jid (JObj ?merged)")
  have rd: "table_read m' p' jid = Some (Val (JObj ?merged))"
    using write_read_object [OF r w] by simp
  obtain st2 where s: "set_db st1 ''users'' jid (balance_object ?nb) = Returns st2 ()"
     "get st2 ''users'' jid = Returns st2 (or_null (Val (JObj ?merged)))"
    using set_then_get [OF l1 _ n w rd] by auto
  have rb: "removeBalance st jid amount = Returns st2 ?nb"
    using g v s(1) safe by (simp add: removeBalance_def js_sub_def)
  have gb: "getBalance st2 jid = Returns st2 (JNum ?nb)"
    using s(2) by (simp add: getBalance_def or_zero_def)
  show ?thesis using rb gb by blast
qed

lemma addBalance_number:
  assumes "getBalance st jid = Returns st1 (JNum b)"
    and safe: "safe_integer b" "safe_integer amount" "safe_integer (b + amount)"
  shows "\<exists>st2. addBalance st jid amount = Returns st2 () \<and>
           getBalance st2 jid = Returns st2 (JNum (b + amount))"
proof -
  let ?new = "fmupd ''balance'' (JNum (b + amount)) fmempty"
  obtain m p old where l: "loadTable st ''users'' = (st1, Table m p)"
     and r: "table_read m p jid = Some old"
     and g: "get st ''users'' jid = Returns st1 (or_null old)"
     and v: "or_zero (member_balance (or_no_balance (or_null old))) = JNum b"
    using getBalance_number [OF assms(1)] by blast
  let ?merged = "spread (or_empty_object old) ++\<^sub>f ?new"
  have l1: "loadTable st1 ''users'' = (st1, Table m p)"
    using loadTable_idem [OF l] by simp
  have n: "new_record m p jid (JObj ?new) = Some (JObj ?merged)"
    using r by (simp add: new_record_def)
  obtain m' p' where w: "table_write m p jid (JObj ?merged) = (m', p')"
    by (cases "table_write m p jid (JObj ?merged)")
  have rd: "table_read m' p' jid = Some (Val (JObj ?merged))"
    using write_read_object [OF r w] by simp
  obtain st2 where s: "set_db st1 ''users'' jid (JObj ?new) = Returns st2 ()"
     "get st2 ''users'' jid = Returns st2 (or_null (Val (JObj ?merged)))"
    using set_then_get [OF l1 _ n w rd] by auto
  have ab: "addBalance st jid amount = Returns st2 ()"
    using g v s(1) safe by (simp add: addBalance_def js_add_def)
  have gb: "getBalance st2 jid = Returns st2 (JNum (b + amount))"
    using s(2) by (simp add: getBalance_def or_zero_def)
  show ?thesis using ab gb by blast
qed

lemma getBalance_no_record:
  assumes "loadTable st ''users'' = (st1, Table m ObjectPrototype)" and "fmlookup m jid = None"
  shows "getBalance st jid = Returns st1 (JNum 0)"
  using assms
  by (simp add: getBalance_def get_def table_read_def object_prototype_get_def or_zero_def)

lemma balance_scenario:
  assumes "loadTable st ''users'' = (st1, Table m ObjectPrototype)" and "fmlookup m jid = None"
  shows "getBalance_after [AddBalance jid 50, AddBalance jid 25, RemoveBalance jid 1000] st jid
           = Some (JNum 0)"
proof -
  have g0: "getBalance st jid = Returns st1 (JNum 0)"
    using getBalance_no_record [OF assms] .
  have s1: "safe_integer 0" "safe_integer 50" "safe_integer (0 + 50)"
    by (simp_all add: safe_integer_def)
  have s2: "safe_integer (0 + 50)" "safe_integer 25" "safe_integer (0 + 50 + 25)"
    by (simp_all add: safe_integer_def)
  have s3: "safe_integer (0 + 50 + 25)" "safe_integer 1000" "safe_integer (0 + 50 + 25 - 1000)"
    by (simp_all add: safe_integer_def)
  obtain st2 where a1: "addBalance st jid 50 = Returns st2 ()"
      "getBalance st2 jid = Returns st2 (JNum (0 + 50))"
    using addBalance_number [OF g0 s1] by blast
  obtain st3 where a2: "addBalance st2 jid 25 = Returns st3 ()"
      "getBalance st3 jid = Returns st3 (JNum (0 + 50 + 25))"
    using addBalance_number [OF a1(2) s2] by blast
  obtain st4 where a3: "removeBalance st3 jid 1000 = Returns st4 (max 0 (0 + 50 + 25 - 1000))"
      "getBalance st4 jid = Returns st4 (JNum (max 0 (0 + 50 + 25 - 1000)))"
    using removeBalance_number [OF a2(2) s3] by blast
  show ?thesis using a1 a2 a3 by (simp add: getBalance_after_def)
qed

lemmas eval_defs =
  get_after_def getAll_after_def set_db_def get_def getAll_def loadTable_def cache_hit_def
  cache_get_def read_table_def readFileSync_def initial_state_def object_prototype_names_def
  empty_table_def new_record_def table_read_def table_write_def saveTable_def
  object_prototype_get_def or_empty_object_def Let_def

lemma json_image_safe: "json_safe v \<Longrightarrow> json_image v = v"
proof (induction v)
  case (JArr xs)
  then show ?case by (auto simp: map_idI list_all_iff)
next
  case (JObj m)
  have safe: "json_safe v" if "fmlookup m k = Some v" for k v
    using JObj.prems that by (auto simp: fmpred_iff)
  have "fmlookup m k \<noteq> Some JUndefined" for k
    using safe [of k JUndefined] by auto
  moreover have "fmmap json_image m = m"
  proof (rule fmap_ext)
    fix k
    show "fmlookup (fmmap json_image m) k = fmlookup m k"
    proof (cases "fmlookup m k")
      case None then show ?thesis by simp
    next
      case (Some v)
      then have "v \<in> fmran' m" by (auto simp: fmlookup_ran'_iff)
      then show ?thesis using JObj.IH safe [OF Some] Some by simp
    qed
  qed
  ultimately show ?case by simp
qed simp_all

lemma try_write_Table:
  assumes "fmlookup (cache st) T = Some (Table m p)"
    and "dbFile (dirname st) T \<notin> set (unwritable st)"
  shows "try_write st T =
           st\<lparr>files := fmupd (dbFile (dirname st) T) (JsonText (json_image (JObj m))) (files st),
              write_log := write_log st @
                [(T, dbFile (dirname st) T, JsonText (json_image (JObj m)), True)]\<rparr>"
  using assms by (simp add: try_write_def cache_or_empty_def cache_get_def writeFileSync_def)

lemma reload_file:
  assumes "T \<notin> set object_prototype_names"
    and "fmlookup (files st) (dbFile (dirname st) T) = Some (JsonText v)"
    and "dbFile (dirname st) T \<notin> set (unreadable st)"
  shows "snd (loadTable (restart st) T) = cell_of v"
  using assms
  by (simp add: loadTable_def cache_hit_def cache_get_def restart_def initial_state_def
      read_table_def readFileSync_def Let_def)

lemmas flush_defs =
  file_after_def reloaded_after_def restart_def flushAll_def flush_one_def Object_keys_def
  is_array_index_def is_digit_def try_write_def cache_or_empty_def writeFileSync_def
  clearTimeout_def fmmap_fmupd

lemma set_Object_keys: "set (Object_keys al) = fst ` set al"
  by (auto simp: Object_keys_def Let_def)

lemma cache_or_empty_cong: "cache st' = cache st \<Longrightarrow> cache_or_empty st' n = cache_or_empty st n"
  by (simp add: cache_or_empty_def cache_get_def)

lemma try_write_frame:
  "cache (try_write st n) = cache st \<and> dirname (try_write st n) = dirname st \<and>
   unwritable (try_write st n) = unwritable st \<and> writeQueues (try_write st n) = writeQueues st \<and>
   timers (try_write st n) = timers st \<and> next_timer (try_write st n) = next_timer st \<and>
   clock (try_write st n) = clock st \<and> unreadable (try_write st n) = unreadable st"
  by (simp add: try_write_def writeFileSync_def split: option.splits)

lemma try_write_files:
  "fmlookup (files (try_write st n)) f =
     (if f = dbFile (dirname st) n \<and> f \<notin> set (unwritable st) \<and>
         JSON_stringify (cache_or_empty st n) \<noteq> None
      then JSON_stringify (cache_or_empty st n) else fmlookup (files st) f)"
  by (auto simp: try_write_def writeFileSync_def split: option.splits)

lemma flush_one_frame:
  "cache (flush_one n st) = cache st \<and> dirname (flush_one n st) = dirname st \<and>
   unwritable (flush_one n st) = unwritable st \<and> writeQueues (flush_one n st) = writeQueues st"
  by (simp add: flush_one_def try_write_frame clearTimeout_def split: option.splits)

lemma flush_one_files:
  "fmlookup (files (flush_one n st)) f =
     (if f = dbFile (dirname st) n \<and> f \<notin> set (unwritable st) \<and>
         JSON_stringify (cache_or_empty st n) \<noteq> None
      then JSON_stringify (cache_or_empty st n) else fmlookup (files st) f)"
proof (cases "map_of (writeQueues st) n")
  case None
  then show ?thesis by (simp add: flush_one_def try_write_files)
next
  case (Some h)
  have "cache_or_empty (clearTimeout st h) n = cache_or_empty st n"
    by (rule cache_or_empty_cong) (simp add: clearTimeout_def)
  then show ?thesis using Some
    by (auto simp: flush_one_def try_write_files clearTimeout_def)
qed

lemma fold_flush_frame:
  "cache (fold flush_one ks st) = cache st \<and> dirname (fold flush_one ks st) = dirname st \<and>
   unwritable (fold flush_one ks st) = unwritable st \<and>
   writeQueues (fold flush_one ks st) = writeQueues st"
  by (induction ks arbitrary: st) (simp_all add: flush_one_frame)

lemma fold_flush_file:
  assumes "name \<in> set ks"
    and "dbFile (dirname st) name \<notin> set (unwritable st)"
    and "JSON_stringify (cache_or_empty st name) = Some data"
    and "\<forall>n \<in> set ks. n \<noteq> name \<longrightarrow> dbFile (dirname st) n \<noteq> dbFile (dirname st) name"
  shows "fmlookup (files (fold flush_one ks st)) (dbFile (dirname st) name) = Some data"
  using assms
proof (induction ks rule: rev_induct)
  case Nil
  then show ?case by simp
next
  case (snoc k ks)
  let ?s = "fold flush_one ks st"
  have fr: "cache ?s = cache st" "dirname ?s = dirname st" "unwritable ?s = unwritable st"
    using fold_flush_frame [of ks st] by simp_all
  show ?case
  proof (cases "k = name")
    case True
    then show ?thesis using snoc.prems fr
      by (simp add: flush_one_files cache_or_empty_cong [of ?s st])
  next
    case False
    then have "name \<in> set ks" using snoc.prems by simp
    then have ih: "fmlookup (files ?s) (dbFile (dirname st) name) = Some data"
      using snoc by simp
    have "dbFile (dirname st) k \<noteq> dbFile (dirname st) name" using snoc.prems False by simp
    then show ?thesis using ih fr by (simp add: flush_one_files)
  qed
qed

section \<open>Facts about timers\<close>



lemma timers_ok_cache [simp]: "timers_ok (st\<lparr>cache := c\<rparr>) = timers_ok st"
  by (simp add: timers_ok_def)














































section \<open>C1: \<open>set\<close> merges an object into an object\<close>

text \<open>
  C1: when the table \<open>T\<close> holds an object \<open>e\<close> at \<open>K\<close> and \<open>v\<close> is an object,
  \<open>set(T, K, v)\<close> returns and leaves at \<open>K\<close> the shallow merge \<open>e ++\<^sub>f v\<close>: a field
  of \<open>v\<close> wins, a field of \<open>e\<close> alone stays; the other records of the table are
  untouched. With no record at \<open>K\<close>, \<open>set(T, K, {a:1})\<close> then \<open>set(T, K, {b:2})\<close>
  make \<open>get(T, K)\<close> return \<open>{a:1, b:2}\<close>. Here \<open>T\<close> is a table: its mapping is an
  object, and for the second part one whose prototype has not been replaced.
\<close>

theorem C1_set_merges_objects:
  assumes "loadTable st T = (st1, Table m p)" and "T \<noteq> ''__proto__''"
  shows "(\<forall>e. fmlookup m K = Some (JObj e) \<longrightarrow>
            returned (set_db st T K (JObj v)) = Some () \<and>
            getAll_after [Set T K (JObj v)] st T
              = Some (Table (fmupd K (JObj (e ++\<^sub>f v)) m) p) \<and>
            get_after [Set T K (JObj v)] st T K = Some (Val (JObj (e ++\<^sub>f v))) \<and>
            (\<forall>f. fmlookup (e ++\<^sub>f v) f =
                  (case fmlookup v f of Some x \<Rightarrow> Some x | None \<Rightarrow> fmlookup e f))) \<and>
         (fmlookup m K = None \<and> p = ObjectPrototype \<longrightarrow>
            get_after [Set T K (JObj (fmupd ''a'' (JNum 1) fmempty)),
                       Set T K (JObj (fmupd ''b'' (JNum 2) fmempty))] st T K
              = Some (Val (JObj (fmupd ''b'' (JNum 2) (fmupd ''a'' (JNum 1) fmempty)))))"
proof -
  have a: "returned (set_db st T K (JObj v)) = Some () \<and>
           getAll_after [Set T K (JObj v)] st T = Some (Table (fmupd K (JObj (e ++\<^sub>f v)) m) p) \<and>
           get_after [Set T K (JObj v)] st T K = Some (Val (JObj (e ++\<^sub>f v)))"
    if h: "fmlookup m K = Some (JObj e)" for e
  proof -
    obtain st2 where "set_db st T K (JObj v) = Returns st2 ()"
      "getAll st2 T = (st2, Table (fmupd K (JObj (e ++\<^sub>f v)) m) p)"
      "get st2 T K = Returns st2 (Val (JObj (e ++\<^sub>f v)))"
      using set_merges_existing [OF assms h] by blast
    then show ?thesis by (simp add: get_after_def getAll_after_def)
  qed
  have b: "fmlookup (e ++\<^sub>f v) f =
             (case fmlookup v f of Some x \<Rightarrow> Some x | None \<Rightarrow> fmlookup e f)" for e f
    by (auto simp: fmlookup_dom_iff split: option.splits)
  have c: "fmlookup m K = None \<and> p = ObjectPrototype \<longrightarrow>
            get_after [Set T K (JObj (fmupd ''a'' (JNum 1) fmempty)),
                       Set T K (JObj (fmupd ''b'' (JNum 2) fmempty))] st T K
              = Some (Val (JObj (fmupd ''b'' (JNum 2) (fmupd ''a'' (JNum 1) fmempty))))"
    using set_twice_fresh [of st T st1 m K] assms by blast
  show ?thesis using a b c by blast
qed

text \<open>
  C1, at the table \<open>users\<close> holding \<open>{a:1, c:5}\<close> at \<open>u1\<close> and nothing at
  \<open>u2\<close>.
\<close>

theorem C1_set_merges_witness:
  "loadTable (users_state (fmupd ''u1'' (JObj (fmupd ''a'' (JNum 1) (fmupd ''c'' (JNum 5) fmempty))) fmempty))
      ''users''
     = (users_state (fmupd ''u1'' (JObj (fmupd ''a'' (JNum 1) (fmupd ''c'' (JNum 5) fmempty))) fmempty),
        Table (fmupd ''u1'' (JObj (fmupd ''a'' (JNum 1) (fmupd ''c'' (JNum 5) fmempty))) fmempty)
          ObjectPrototype) \<and>
   ''users'' \<noteq> ''__proto__'' \<and>
   fmlookup (fmupd ''u1'' (JObj (fmupd ''a'' (JNum 1) (fmupd ''c'' (JNum 5) fmempty))) fmempty) ''u1''
     = Some (JObj (fmupd ''a'' (JNum 1) (fmupd ''c'' (JNum 5) fmempty))) \<and>
   get_after [Set ''users'' ''u1'' (JObj (fmupd ''a'' (JNum 3) fmempty))]
      (users_state (fmupd ''u1'' (JObj (fmupd ''a'' (JNum 1) (fmupd ''c'' (JNum 5) fmempty))) fmempty))
      ''users'' ''u1''
     = Some (Val (JObj (fmupd ''a'' (JNum 3) (fmupd ''c'' (JNum 5) fmempty)))) \<and>
   fmlookup (fmupd ''u1'' (JObj (fmupd ''a'' (JNum 1) (fmupd ''c'' (JNum 5) fmempty))) fmempty) ''u2''
     = None \<and>
   get_after [Set ''users'' ''u2'' (JObj (fmupd ''a'' (JNum 1) fmempty)),
              Set ''users'' ''u2'' (JObj (fmupd ''b'' (JNum 2) fmempty))]
      (users_state (fmupd ''u1'' (JObj (fmupd ''a'' (JNum 1) (fmupd ''c'' (JNum 5) fmempty))) fmempty))
      ''users'' ''u2''
     = Some (Val (JObj (fmupd ''b'' (JNum 2) (fmupd ''a'' (JNum 1) fmempty))))"
  using C1_set_merges_objects [OF users_state_load,
          where m = "fmupd ''u1'' (JObj (fmupd ''a'' (JNum 1) (fmupd ''c'' (JNum 5) fmempty))) fmempty"
            and K = "''u1''" and v = "fmupd ''a'' (JNum 3) fmempty"]
        C1_set_merges_objects [OF users_state_load,
          where m = "fmupd ''u1'' (JObj (fmupd ''a'' (JNum 1) (fmupd ''c'' (JNum 5) fmempty))) fmempty"
            and K = "''u2''"]
        users_state_load [of "fmupd ''u1'' (JObj (fmupd ''a'' (JNum 1) (fmupd ''c'' (JNum 5) fmempty))) fmempty"]
  by simp

section \<open>C2: \<open>set\<close> replaces by a list or a scalar\<close>

text \<open>
  C2 (as stated): for every key, \<open>set\<close> of a list or scalar replaces the record by
  that value. This fails at the key \<open>__proto__\<close>: on a table without that own key
  the assignment of the number \<open>5\<close> reaches the accessor of \<open>Object.prototype\<close>,
  which ignores it; the mapping stays empty and \<open>get\<close> returns
  \<open>Object.prototype\<close>.
\<close>

theorem C2_set_scalar_at_proto:
  "\<not> is_plain_object (JNum 5) \<and>
   getAll_after [] (initial_state ''/bot/src/database'') ''users'' = Some (Table fmempty ObjectPrototype) \<and>
   get_after [Set ''users'' ''__proto__'' (JNum 5)] (initial_state ''/bot/src/database'')
      ''users'' ''__proto__'' = Some (Inherited ''__proto__'') \<and>
   getAll_after [Set ''users'' ''__proto__'' (JNum 5)] (initial_state ''/bot/src/database'')
      ''users'' = Some (Table fmempty ObjectPrototype)"
  by (simp add: eval_defs)

text \<open>
  C2 (amended): for a value \<open>V\<close> that is a list or a scalar and a key other than
  \<open>__proto__\<close> (or one the mapping already has), \<open>set(T, K, V)\<close> returns, the
  record at \<open>K\<close> is \<open>V\<close> with nothing merged and the other records are untouched,
  and \<open>get(T, K)\<close> returns \<open>V\<close> (\<open>null\<close> for \<open>undefined\<close>). After
  \<open>set(T, K, [1,2])\<close>, \<open>get(T, K)\<close> returns \<open>[1,2]\<close> at every key.
\<close>

theorem C2_set_replaces:
  assumes "loadTable st T = (st1, Table m p)" and "T \<noteq> ''__proto__''"
    and "\<not> is_plain_object V"
  shows "(K \<noteq> ''__proto__'' \<or> K |\<in>| fmdom m \<longrightarrow>
            returned (set_db st T K V) = Some () \<and>
            getAll_after [Set T K V] st T = Some (Table (fmupd K V m) p) \<and>
            get_after [Set T K V] st T K = Some (or_null (Val V))) \<and>
         get_after [Set T K (JArr [JNum 1, JNum 2])] st T K = Some (Val (JArr [JNum 1, JNum 2]))"
proof -
  have a: "returned (set_db st T K V) = Some () \<and>
           getAll_after [Set T K V] st T = Some (Table (fmupd K V m) p) \<and>
           get_after [Set T K V] st T K = Some (or_null (Val V))"
    if h: "K \<noteq> ''__proto__'' \<or> K |\<in>| fmdom m"
  proof -
    obtain st2 where "set_db st T K V = Returns st2 ()"
      "getAll st2 T = (st2, Table (fmupd K V m) p)"
      "get st2 T K = Returns st2 (or_null (Val V))"
      using set_replaces [OF assms h] by blast
    then show ?thesis by (simp add: get_after_def getAll_after_def)
  qed
  show ?thesis using a set_list_any_key [OF assms(1,2)] by blast
qed

text \<open>
  C2 (amended), at the table \<open>users\<close> holding the object \<open>{a:1}\<close> at \<open>u1\<close>.
\<close>

theorem C2_set_replaces_witness:
  "loadTable (users_state (fmupd ''u1'' (JObj (fmupd ''a'' (JNum 1) fmempty)) fmempty)) ''users''
     = (users_state (fmupd ''u1'' (JObj (fmupd ''a'' (JNum 1) fmempty)) fmempty),
        Table (fmupd ''u1'' (JObj (fmupd ''a'' (JNum 1) fmempty)) fmempty) ObjectPrototype) \<and>
   ''users'' \<noteq> ''__proto__'' \<and> \<not> is_plain_object (JStr ''x'') \<and> ''u1'' \<noteq> ''__proto__'' \<and>
   getAll_after [Set ''users'' ''u1'' (JStr ''x'')]
      (users_state (fmupd ''u1'' (JObj (fmupd ''a'' (JNum 1) fmempty)) fmempty)) ''users''
     = Some (Table (fmupd ''u1'' (JStr ''x'') fmempty) ObjectPrototype) \<and>
   get_after [Set ''users'' ''u1'' (JArr [JNum 1, JNum 2])]
      (users_state (fmupd ''u1'' (JObj (fmupd ''a'' (JNum 1) fmempty)) fmempty)) ''users'' ''u1''
     = Some (Val (JArr [JNum 1, JNum 2]))"
  using C2_set_replaces [OF users_state_load,
          where m = "fmupd ''u1'' (JObj (fmupd ''a'' (JNum 1) fmempty)) fmempty"
            and V = "JStr ''x''" and K = "''u1''"]
        users_state_load [of "fmupd ''u1'' (JObj (fmupd ''a'' (JNum 1) fmempty)) fmempty"]
  by simp

section \<open>C3: \<open>flushAll\<close>\<close>

text \<open>
  C3 (as stated): after \<open>flushAll\<close>, every table with a pending write or a cached
  mapping has its mapping on disk. This fails for a table that is cached and has no
  pending write: after \<open>get('users', 'u1')\<close> in a fresh process the cache holds the
  empty mapping of \<open>users\<close>, no write fails, and \<open>flushAll\<close> leaves the table
  without a file.
\<close>

theorem C3_flushAll_skips_clean_tables:
  "getAll_after [Get ''users'' ''u1'', FlushAll] (initial_state ''/bot/src/database'') ''users''
     = Some (Table fmempty ObjectPrototype) \<and>
   JSON_stringify (Table fmempty ObjectPrototype) = Some (JsonText (JObj fmempty)) \<and>
   unwritable (initial_state ''/bot/src/database'') = [] \<and>
   file_after [Get ''users'' ''u1'', FlushAll] (initial_state ''/bot/src/database'') ''users'' = None"
  by (simp add: eval_defs flush_defs)

text \<open>
  C3 (amended): after \<open>flushAll\<close>, for every table with a pending scheduled write
  (an entry of \<open>writeQueues\<close>) whose own write does not fail and whose file no other
  pending table shares, the file holds the serialization of the mapping in memory,
  which \<open>flushAll\<close> does not change. Nothing is assumed of the other tables: their
  failures do not matter.
\<close>

theorem C3_flushAll_writes_pending_tables:
  assumes "name \<in> fst ` set (writeQueues st)"
    and "fmlookup (cache st) name = Some (Table m p)"
    and "dbFile (dirname st) name \<notin> set (unwritable st)"
    and "\<forall>n \<in> fst ` set (writeQueues st).
           n \<noteq> name \<longrightarrow> dbFile (dirname st) n \<noteq> dbFile (dirname st) name"
  shows "fmlookup (files (flushAll st)) (dbFile (dirname st) name)
           = Some (JsonText (json_image (JObj m))) \<and>
         cache (flushAll st) = cache st"
proof -
  have s: "JSON_stringify (cache_or_empty st name) = Some (JsonText (json_image (JObj m)))"
    using assms(2) by (simp add: cache_or_empty_def cache_get_def)
  show ?thesis
    unfolding flushAll_def
    using fold_flush_file [of name "Object_keys (writeQueues st)" st, OF _ assms(3) s]
      assms(1,4) fold_flush_frame [of "Object_keys (writeQueues st)" st]
    by (simp add: set_Object_keys)
qed

text \<open>
  C3 (amended), with \<open>groups\<close> and \<open>users\<close> pending and the write of
  \<open>groups\<close> failing: \<open>users\<close> is written all the same.
\<close>

theorem C3_flushAll_witness:
  "''users'' \<in> fst ` set (writeQueues two_pending_state) \<and>
   fmlookup (cache two_pending_state) ''users''
     = Some (Table (fmupd ''u1'' (JNum 1) fmempty) ObjectPrototype) \<and>
   dbFile (dirname two_pending_state) ''users'' \<notin> set (unwritable two_pending_state) \<and>
   dbFile (dirname two_pending_state) ''groups'' \<noteq> dbFile (dirname two_pending_state) ''users'' \<and>
   dbFile (dirname two_pending_state) ''groups'' \<in> set (unwritable two_pending_state) \<and>
   fmlookup (files (flushAll two_pending_state)) (dbFile (dirname two_pending_state) ''users'')
     = Some (JsonText (JObj (fmupd ''u1'' (JNum 1) fmempty)))"
proof -
  have d: "dbFile ''/bot/src/database'' ''groups'' \<noteq> dbFile ''/bot/src/database'' ''users''"
    by (simp add: dbFile_plain)
  show ?thesis
    using d C3_flushAll_writes_pending_tables [of "''users''" two_pending_state
                "fmupd ''u1'' (JNum 1) fmempty" ObjectPrototype]
    by (simp add: two_pending_state_def initial_state_def fmmap_fmupd)
qed

section \<open>C4: one file per table\<close>

text \<open>
  C4 (as stated): the file path is an injective function of the table name. This fails:
  \<open>path.join\<close> normalises the path, so the names \<open>users\<close> and \<open>./users\<close> share the
  file \<open>/bot/data/users.json\<close>.
\<close>

theorem C4_dbFile_not_injective:
  "''users'' \<noteq> ''./users'' \<and>
   dbFile ''/bot/src/database'' ''users'' = dbFile ''/bot/src/database'' ''./users''"
  by (simp add: dbFile_def DATA_DIR_def path_join_def path_normalize_def)

text \<open>
  C4 (amended): on table names that contain no slash the file path is injective: two
  different such names never share a file, whatever the directory of the module.
\<close>

theorem C4_dbFile_injective_without_slash:
  assumes "n1 \<noteq> n2" and "CHR ''/'' \<notin> set n1" and "CHR ''/'' \<notin> set n2"
  shows "dbFile d n1 \<noteq> dbFile d n2"
  using assms by (simp add: dbFile_plain)

theorem C4_dbFile_injective_witness:
  "''users'' \<noteq> ''groups'' \<and> CHR ''/'' \<notin> set ''users'' \<and> CHR ''/'' \<notin> set ''groups'' \<and>
   dbFile ''/bot/src/database'' ''users'' \<noteq> dbFile ''/bot/src/database'' ''groups''"
  using C4_dbFile_injective_without_slash [of "''users''" "''groups''" "''/bot/src/database''"]
  by simp

section \<open>C5: \<open>loadTable\<close> absorbs failures\<close>

text \<open>
  C5 (as stated): for every name that is not in the cache, a failed read makes
  \<open>loadTable\<close> return and cache an empty mapping. This fails for a name that
  \<open>cache\<close> inherits from \<open>Object.prototype\<close>: \<open>constructor\<close> is no own entry of
  the cache and has no file, yet \<open>cache[name]\<close> is truthy, so \<open>loadTable\<close> returns
  that function and caches nothing.
\<close>

theorem C5_loadTable_inherited_name:
  "fmlookup (cache (initial_state ''/bot/src/database'')) ''constructor'' = None \<and>
   readFileSync (initial_state ''/bot/src/database'')
     (dbFile (dirname (initial_state ''/bot/src/database'')) ''constructor'') = None \<and>
   loadTable (initial_state ''/bot/src/database'') ''constructor''
     = (initial_state ''/bot/src/database'', Builtin ''constructor'') \<and>
   Builtin ''constructor'' \<noteq> empty_table"
  by (simp add: initial_state_def readFileSync_def loadTable_def cache_hit_def cache_get_def
      object_prototype_names_def empty_table_def)

text \<open>
  C5 (amended): for a name \<open>N\<close> that is not in the cache and is not the name of a
  member of \<open>Object.prototype\<close>, when the file of the table cannot be read or is not
  JSON, \<open>loadTable(N)\<close> returns the empty mapping and caches it. It raises no error:
  \<open>loadTable\<close> is a total function without an error result.
\<close>

theorem C5_loadTable_absorbs_failures:
  assumes "fmlookup (cache st) N = None" and "N \<notin> set object_prototype_names"
    and "readFileSync st (dbFile (dirname st) N) = None \<or>
         (\<exists>text. readFileSync st (dbFile (dirname st) N) = Some text \<and> JSON_parse text = None)"
  shows "loadTable st N = (st\<lparr>cache := fmupd N empty_table (cache st)\<rparr>, empty_table) \<and>
         fmlookup (cache (fst (loadTable st N))) N = Some empty_table"
  using assms
  by (auto simp: loadTable_def cache_hit_absent read_table_def Let_def)

text \<open>
  C5 (amended), at a fresh process whose \<open>users\<close> file is not JSON.
\<close>

theorem C5_loadTable_witness:
  "fmlookup (cache corrupt_users_state) ''users'' = None \<and>
   ''users'' \<notin> set object_prototype_names \<and>
   readFileSync corrupt_users_state (dbFile (dirname corrupt_users_state) ''users'')
     = Some (OtherText ''{oops'') \<and>
   JSON_parse (OtherText ''{oops'') = None \<and>
   snd (loadTable corrupt_users_state ''users'') = empty_table \<and>
   fmlookup (cache (fst (loadTable corrupt_users_state ''users''))) ''users'' = Some empty_table"
  using C5_loadTable_absorbs_failures [of corrupt_users_state "''users''"]
  by (simp add: corrupt_users_state_def initial_state_def readFileSync_def object_prototype_names_def)

section \<open>C6: one pending write per table\<close>



section \<open>C7: what was flushed is what a new process loads\<close>

text \<open>
  C7 (as stated): a new process loads a mapping equal to the one that was flushed. This
  fails for a record with a field \<open>undefined\<close>, which \<open>JSON.stringify\<close> leaves
  out: after \<open>set('users', 'u1', {reason: undefined})\<close> and \<open>flushAll\<close>, the record
  in memory is \<open>{reason: undefined}\<close> and the record a new process loads is
  \<open>{}\<close>.
\<close>

theorem C7_undefined_is_lost:
  "getAll_after [Set ''users'' ''u1'' (JObj (fmupd ''reason'' JUndefined fmempty)), FlushAll]
      (initial_state ''/bot/src/database'') ''users''
     = Some (Table (fmupd ''u1'' (JObj (fmupd ''reason'' JUndefined fmempty)) fmempty) ObjectPrototype) \<and>
   file_after [Set ''users'' ''u1'' (JObj (fmupd ''reason'' JUndefined fmempty)), FlushAll]
      (initial_state ''/bot/src/database'') ''users''
     = Some (JsonText (JObj (fmupd ''u1'' (JObj fmempty) fmempty))) \<and>
   reloaded_after [Set ''users'' ''u1'' (JObj (fmupd ''reason'' JUndefined fmempty)), FlushAll]
      (initial_state ''/bot/src/database'') ''users''
     = Some (Table (fmupd ''u1'' (JObj fmempty) fmempty) ObjectPrototype) \<and>
   fmlookup (fmupd ''u1'' (JObj (fmupd ''reason'' JUndefined fmempty)) fmempty) ''u1''
     \<noteq> fmlookup (fmupd ''u1'' (JObj fmempty) fmempty) ''u1''"
proof -
  have "fmupd ''reason'' JUndefined fmempty \<noteq> fmempty"
    by (metis fmdom_empty fmdom_fmupd finsert_not_fempty)
  then show ?thesis by (simp add: eval_defs flush_defs)
qed

text \<open>
  C7 (amended): when the mapping \<open>m\<close> of a table (whose name is not the name of a
  member of \<open>Object.prototype\<close>) is written without error, its file holds the JSON
  image of \<open>m\<close>; a new process that finds this file and can read it loads the JSON
  image of \<open>m\<close>. When no \<open>undefined\<close>, \<open>NaN\<close>, infinity or \<open>-0\<close> occurs in
  \<open>m\<close>, what it loads is the mapping \<open>m\<close> with the prototype \<open>Object.prototype\<close>,
  and this is the table that was flushed exactly when the prototype of that table had
  not been replaced.
\<close>

theorem C7_reload_after_flush:
  assumes "fmlookup (cache st) T = Some (Table m p)" and "T \<notin> set object_prototype_names"
    and "dbFile (dirname st) T \<notin> set (unwritable st)"
  shows "fmlookup (files (try_write st T)) (dbFile (dirname st) T)
           = Some (JsonText (json_image (JObj m))) \<and>
         (\<forall>st'. dirname st' = dirname st \<and>
                fmlookup (files st') (dbFile (dirname st) T)
                  = fmlookup (files (try_write st T)) (dbFile (dirname st) T) \<and>
                dbFile (dirname st) T \<notin> set (unreadable st') \<longrightarrow>
                snd (loadTable (restart st') T) = cell_of (json_image (JObj m)) \<and>
                (json_safe (JObj m) \<longrightarrow>
                   snd (loadTable (restart st') T) = Table m ObjectPrototype \<and>
                   (snd (loadTable (restart st') T) = Table m p \<longleftrightarrow> p = ObjectPrototype)))"
proof -
  have f: "fmlookup (files (try_write st T)) (dbFile (dirname st) T)
           = Some (JsonText (json_image (JObj m)))"
    using try_write_Table [OF assms(1,3)] by simp
  have "snd (loadTable (restart st') T) = cell_of (json_image (JObj m)) \<and>
        (json_safe (JObj m) \<longrightarrow>
           snd (loadTable (restart st') T) = Table m ObjectPrototype \<and>
           (snd (loadTable (restart st') T) = Table m p \<longleftrightarrow> p = ObjectPrototype))"
    if h: "dirname st' = dirname st"
      "fmlookup (files st') (dbFile (dirname st) T)
         = fmlookup (files (try_write st T)) (dbFile (dirname st) T)"
      "dbFile (dirname st) T \<notin> set (unreadable st')" for st'
  proof -
    have "snd (loadTable (restart st') T) = cell_of (json_image (JObj m))"
      using reload_file [of T st' "json_image (JObj m)"] assms(2) h f by simp
    moreover have "json_safe (JObj m) \<Longrightarrow> cell_of (json_image (JObj m)) = Table m ObjectPrototype"
      using json_image_safe [of "JObj m"] by simp
    ultimately show ?thesis by auto
  qed
  then show ?thesis using f by blast
qed

text \<open>
  C7 (amended), at the table \<open>users\<close> holding \<open>{balance: 75}\<close> at \<open>u1\<close>.
\<close>

theorem C7_reload_witness:
  "fmlookup (cache (users_state (fmupd ''u1'' (JObj (fmupd ''balance'' (JNum 75) fmempty)) fmempty)))
      ''users''
     = Some (Table (fmupd ''u1'' (JObj (fmupd ''balance'' (JNum 75) fmempty)) fmempty) ObjectPrototype) \<and>
   ''users'' \<notin> set object_prototype_names \<and>
   json_safe (JObj (fmupd ''u1'' (JObj (fmupd ''balance'' (JNum 75) fmempty)) fmempty)) \<and>
   snd (loadTable (restart (try_write
          (users_state (fmupd ''u1'' (JObj (fmupd ''balance'' (JNum 75) fmempty)) fmempty)) ''users''))
        ''users'')
     = Table (fmupd ''u1'' (JObj (fmupd ''balance'' (JNum 75) fmempty)) fmempty) ObjectPrototype"
proof -
  let ?m = "fmupd ''u1'' (JObj (fmupd ''balance'' (JNum 75) fmempty)) fmempty"
  have c: "fmlookup (cache (users_state ?m)) ''users'' = Some (Table ?m ObjectPrototype)"
    by (simp add: users_state_def)
  have n: "''users'' \<notin> set object_prototype_names" by (simp add: object_prototype_names_def)
  have w: "dbFile (dirname (users_state ?m)) ''users'' \<notin> set (unwritable (users_state ?m))"
    by (simp add: users_state_def initial_state_def)
  have r: "dbFile (dirname (users_state ?m)) ''users''
             \<notin> set (unreadable (try_write (users_state ?m) ''users''))"
    by (simp add: try_write_Table [OF c w]) (simp add: users_state_def initial_state_def)
  have d: "dirname (try_write (users_state ?m) ''users'') = dirname (users_state ?m)"
    by (simp add: try_write_Table [OF c w])
  have s: "json_safe (JObj ?m)" by (simp add: fmmap_fmupd fmpred_iff)
  show ?thesis
    using C7_reload_after_flush [OF c n w] c n s r d by blast
qed

section \<open>C8: \<open>removeBalance\<close> floors the balance at zero\<close>

text \<open>
  C8 (as stated): the balance of a user never becomes negative. This fails:
  \<open>addBalance\<close> does not look at the sign of the amount, so in a fresh process
  \<open>addBalance('u1', -5)\<close> leaves the balance \<open>-5\<close>.
\<close>

theorem C8_addBalance_goes_negative:
  "getBalance_after [] (initial_state ''/bot/src/database'') ''u1'' = Some (JNum 0) \<and>
   getBalance_after [AddBalance ''u1'' (- 5)] (initial_state ''/bot/src/database'') ''u1''
     = Some (JNum (- 5)) \<and>
   (- 5 :: int) < 0"
  by (simp add: getBalance_after_def addBalance_def getBalance_def js_add_def safe_integer_def
      or_zero_def or_no_balance_def eval_defs)

text \<open>
  C8 (amended): when the balance of \<open>jid\<close> reads as the number \<open>b\<close>, and
  \<open>b\<close>, the amount and \<open>b - amount\<close> are safe integers (so that the subtraction of
  doubles is exact), \<open>removeBalance(jid, amount)\<close> returns \<open>max(0, b - amount)\<close>,
  the balance then reads as that value, and it is not negative. When \<open>b\<close>, the amount
  and \<open>b + amount\<close> are safe integers, \<open>addBalance(jid, amount)\<close> makes the balance
  \<open>b + amount\<close>, which is negative when the amount is below \<open>-b\<close>. From a table
  without a record for \<open>jid\<close>, adding \<open>50\<close>, adding \<open>25\<close> and removing
  \<open>1000\<close> leave the balance \<open>0\<close>.
\<close>

theorem C8_removeBalance_floors_at_zero:
  "(\<forall>st1 b. getBalance st jid = Returns st1 (JNum b) \<and>
            safe_integer b \<and> safe_integer amount \<and> safe_integer (b - amount) \<longrightarrow>
      (\<exists>st2 n. removeBalance st jid amount = Returns st2 n \<and>
                getBalance st2 jid = Returns st2 (JNum n) \<and>
                n = max 0 (b - amount) \<and> 0 \<le> n)) \<and>
   (\<forall>st1 b. getBalance st jid = Returns st1 (JNum b) \<and>
            safe_integer b \<and> safe_integer amount \<and> safe_integer (b + amount) \<longrightarrow>
      (\<exists>st2. addBalance st jid amount = Returns st2 () \<and>
             getBalance st2 jid = Returns st2 (JNum (b + amount)))) \<and>
   (\<forall>st1 m. loadTable st ''users'' = (st1, Table m ObjectPrototype) \<and> fmlookup m jid = None \<longrightarrow>
      getBalance_after [AddBalance jid 50, AddBalance jid 25, RemoveBalance jid 1000] st jid
        = Some (JNum 0))"
proof -
  have a: "\<exists>st2 n. removeBalance st jid amount = Returns st2 n \<and>
                getBalance st2 jid = Returns st2 (JNum n) \<and>
                n = max 0 (b - amount) \<and> 0 \<le> n"
    if "getBalance st jid = Returns st1 (JNum b)" "safe_integer b" "safe_integer amount"
      "safe_integer (b - amount)" for st1 b
    using removeBalance_number [OF that] by auto
  have b: "\<exists>st2. addBalance st jid amount = Returns st2 () \<and>
             getBalance st2 jid = Returns st2 (JNum (b + amount))"
    if "getBalance st jid = Returns st1 (JNum b)" "safe_integer b" "safe_integer amount"
      "safe_integer (b + amount)" for st1 b
    using addBalance_number [OF that] .
  have c: "getBalance_after [AddBalance jid 50, AddBalance jid 25, RemoveBalance jid 1000] st jid
        = Some (JNum 0)"
    if "loadTable st ''users'' = (st1, Table m ObjectPrototype)" "fmlookup m jid = None" for st1 m
    using balance_scenario [OF that] .
  show ?thesis using a b c by blast
qed

text \<open>
  C8 (amended), at a user with balance \<open>75\<close>, and the scenario in a fresh process.
\<close>

theorem C8_removeBalance_witness:
  "getBalance (users_state (fmupd ''u1'' (JObj (fmupd ''balance'' (JNum 75) fmempty)) fmempty)) ''u1''
     = Returns (users_state (fmupd ''u1'' (JObj (fmupd ''balance'' (JNum 75) fmempty)) fmempty)) (JNum 75) \<and>
   safe_integer 75 \<and> safe_integer 20 \<and> safe_integer (75 - 20) \<and>
   safe_integer 1000 \<and> safe_integer (75 - 1000) \<and> safe_integer (75 + 20) \<and>
   returned (removeBalance (users_state (fmupd ''u1'' (JObj (fmupd ''balance'' (JNum 75) fmempty)) fmempty))
      ''u1'' 20) = Some 55 \<and>
   returned (removeBalance (users_state (fmupd ''u1'' (JObj (fmupd ''balance'' (JNum 75) fmempty)) fmempty))
      ''u1'' 1000) = Some 0 \<and>
   returned (addBalance (users_state (fmupd ''u1'' (JObj (fmupd ''balance'' (JNum 75) fmempty)) fmempty))
      ''u1'' 20) = Some () \<and>
   loadTable (initial_state ''/bot/src/database'') ''users''
     = ((initial_state ''/bot/src/database'')\<lparr>cache := fmupd ''users'' empty_table fmempty\<rparr>,
        Table fmempty ObjectPrototype) \<and>
   getBalance_after [AddBalance ''u1'' 50, AddBalance ''u1'' 25, RemoveBalance ''u1'' 1000]
      (initial_state ''/bot/src/database'') ''u1'' = Some (JNum 0)"
proof -
  let ?s = "users_state (fmupd ''u1'' (JObj (fmupd ''balance'' (JNum 75) fmempty)) fmempty)"
  have g: "getBalance ?s ''u1'' = Returns ?s (JNum 75)"
    using users_state_load [of "fmupd ''u1'' (JObj (fmupd ''balance'' (JNum 75) fmempty)) fmempty"]
    by (simp add: getBalance_def get_def table_read_def or_zero_def)
  have l: "loadTable (initial_state ''/bot/src/database'') ''users''
     = ((initial_state ''/bot/src/database'')\<lparr>cache := fmupd ''users'' empty_table fmempty\<rparr>,
        Table fmempty ObjectPrototype)"
    by (simp add: eval_defs)
  have s: "safe_integer 75" "safe_integer 20" "safe_integer (75 - 20)" "safe_integer 1000"
    "safe_integer (75 - 1000)" "safe_integer (75 + 20)"
    by (simp_all add: safe_integer_def)
  show ?thesis
    using g l s
      C8_removeBalance_floors_at_zero [of ?s "''u1''" 20]
      C8_removeBalance_floors_at_zero [of ?s "''u1''" 1000]
      C8_removeBalance_floors_at_zero [of "initial_state ''/bot/src/database''" "''u1''" 0]
    by auto
qed

section \<open>C9: \<open>get\<close> reads and does not write\<close>

text \<open>
  C9 (as stated): \<open>get\<close> returns the absent marker for a key that was never
  written. This fails for a key that the table inherits from \<open>Object.prototype\<close>: in
  a fresh process, \<open>get('users', 'constructor')\<close> returns that function, not
  \<open>null\<close>.
\<close>

theorem C9_get_inherited_key:
  "fmlookup (files (initial_state ''/bot/src/database'')) (dbFile ''/bot/src/database'' ''users'') = None \<and>
   getAll_after [] (initial_state ''/bot/src/database'') ''users'' = Some (Table fmempty ObjectPrototype) \<and>
   get_after [] (initial_state ''/bot/src/database'') ''users'' ''constructor''
     = Some (Inherited ''constructor'') \<and>
   Inherited ''constructor'' \<noteq> Val JNull"
  by (simp add: eval_defs)

text \<open>
  C9 (amended): for every state, table name \<open>T\<close> and key \<open>K\<close>, whatever
  \<open>get(T, K)\<close> returns or throws, it leaves the state that \<open>loadTable(T)\<close> leaves: no
  timer is armed or cleared, \<open>writeQueues\<close> is unchanged, no file is written, nothing
  is handed to \<open>writeFileSync\<close>, the cache entries of the other tables are unchanged,
  and when \<open>T\<close> is cached the state is unchanged altogether; otherwise the only change
  is the cache entry of \<open>T\<close>, which gets what was loaded. On a table (its mapping is an
  object), \<open>get(T, K)\<close> returns the record at \<open>K\<close> (\<open>null\<close> for
  \<open>undefined\<close>), and returns \<open>null\<close> when the mapping has no \<open>K\<close>, its prototype
  has not been replaced and \<open>K\<close> is not the name of a member of \<open>Object.prototype\<close>.
\<close>

theorem C9_get_reads_without_writing:
  "(\<exists>st'. state_after (get st T K) = Some st' \<and> st' = fst (loadTable st T) \<and>
          writeQueues st' = writeQueues st \<and> timers st' = timers st \<and>
          next_timer st' = next_timer st \<and>
          files st' = files st \<and> write_log st' = write_log st \<and>
          (\<forall>T'. T' \<noteq> T \<longrightarrow> fmlookup (cache st') T' = fmlookup (cache st) T') \<and>
          (\<forall>r. fmlookup (cache st) T = Some r \<and> truthy_tref r \<longrightarrow> st' = st) \<and>
          (st' = st \<or> st' = st\<lparr>cache := fmupd T (snd (loadTable st T)) (cache st)\<rparr>)) \<and>
   (\<forall>st1 m p. loadTable st T = (st1, Table m p) \<longrightarrow>
      (\<forall>v. fmlookup m K = Some v \<longrightarrow> get st T K = Returns st1 (or_null (Val v))) \<and>
      (fmlookup m K = None \<and> p = ObjectPrototype \<and> K \<notin> set object_prototype_names
         \<longrightarrow> get st T K = Returns st1 (Val JNull)))"
proof -
  obtain st1 db where l: "loadTable st T = (st1, db)" by (cases "loadTable st T")
  have s: "state_after (get st T K) = Some st1"
    using l by (simp add: get_def split: tref.splits option.splits)
  have c: "\<forall>T'. T' \<noteq> T \<longrightarrow> fmlookup (cache st1) T' = fmlookup (cache st) T'"
    using loadTable_frame [OF l] by auto
  have d: "\<forall>r. fmlookup (cache st) T = Some r \<and> truthy_tref r \<longrightarrow> st1 = st"
    using loadTable_frame [OF l] by (auto simp: cache_hit_def cache_get_def)
  have e: "st1 = st \<or> st1 = st\<lparr>cache := fmupd T (snd (loadTable st T)) (cache st)\<rparr>"
    using loadTable_frame [OF l] l by auto
  have a: "\<forall>v. fmlookup m K = Some v \<longrightarrow> get st T K = Returns st1' (or_null (Val v))"
    if "loadTable st T = (st1', Table m p)" for st1' m p
    using that by (simp add: get_def table_read_def)
  have b: "fmlookup m K = None \<and> p = ObjectPrototype \<and> K \<notin> set object_prototype_names
            \<longrightarrow> get st T K = Returns st1' (Val JNull)"
    if "loadTable st T = (st1', Table m p)" for st1' m p
    using that by (simp add: get_def table_read_def object_prototype_get_def)
  have f: "\<exists>st'. state_after (get st T K) = Some st' \<and> st' = fst (loadTable st T) \<and>
          writeQueues st' = writeQueues st \<and> timers st' = timers st \<and>
          next_timer st' = next_timer st \<and>
          files st' = files st \<and> write_log st' = write_log st \<and>
          (\<forall>T'. T' \<noteq> T \<longrightarrow> fmlookup (cache st') T' = fmlookup (cache st) T') \<and>
          (\<forall>r. fmlookup (cache st) T = Some r \<and> truthy_tref r \<longrightarrow> st' = st) \<and>
          (st' = st \<or> st' = st\<lparr>cache := fmupd T (snd (loadTable st T)) (cache st)\<rparr>)"
    using s c d e l loadTable_other [OF l] by simp
  show ?thesis using f a b by blast
qed

text \<open>
  C9 (amended), at the table \<open>users\<close> holding \<open>7\<close> at \<open>u1\<close> and nothing at
  \<open>u2\<close>, and at the key \<open>constructor\<close>.
\<close>

theorem C9_get_witness:
  "loadTable (users_state (fmupd ''u1'' (JNum 7) fmempty)) ''users''
     = (users_state (fmupd ''u1'' (JNum 7) fmempty), Table (fmupd ''u1'' (JNum 7) fmempty) ObjectPrototype) \<and>
   fmlookup (fmupd ''u1'' (JNum 7) fmempty) ''u1'' = Some (JNum 7) \<and>
   get (users_state (fmupd ''u1'' (JNum 7) fmempty)) ''users'' ''u1''
     = Returns (users_state (fmupd ''u1'' (JNum 7) fmempty)) (Val (JNum 7)) \<and>
   fmlookup (fmupd ''u1'' (JNum 7) fmempty) ''u2'' = None \<and>
   ''u2'' \<notin> set object_prototype_names \<and>
   get (users_state (fmupd ''u1'' (JNum 7) fmempty)) ''users'' ''u2''
     = Returns (users_state (fmupd ''u1'' (JNum 7) fmempty)) (Val JNull) \<and>
   fmlookup (cache (users_state (fmupd ''u1'' (JNum 7) fmempty))) ''users''
     = Some (Table (fmupd ''u1'' (JNum 7) fmempty) ObjectPrototype) \<and>
   truthy_tref (Table (fmupd ''u1'' (JNum 7) fmempty) ObjectPrototype) \<and>
   state_after (get (users_state (fmupd ''u1'' (JNum 7) fmempty)) ''users'' ''constructor'')
     = Some (users_state (fmupd ''u1'' (JNum 7) fmempty))"
proof -
  let ?s = "users_state (fmupd ''u1'' (JNum 7) fmempty)"
  have c: "fmlookup (cache ?s) ''users'' = Some (Table (fmupd ''u1'' (JNum 7) fmempty) ObjectPrototype)"
    by (simp add: users_state_def)
  have t: "truthy_tref (Table (fmupd ''u1'' (JNum 7) fmempty) ObjectPrototype)" by simp
  have n: "''u2'' \<notin> set object_prototype_names" by (simp add: object_prototype_names_def)
  note l = users_state_load [of "fmupd ''u1'' (JNum 7) fmempty"]
  note a = C9_get_reads_without_writing [of ?s "''users''" "''u1''"]
  note b = C9_get_reads_without_writing [of ?s "''users''" "''u2''"]
  note d = C9_get_reads_without_writing [of ?s "''users''" "''constructor''"]
  have 1: "get ?s ''users'' ''u1'' = Returns ?s (Val (JNum 7))"
    using a l by simp
  have 2: "get ?s ''users'' ''u2'' = Returns ?s (Val JNull)"
    using b l n by simp
  have 3: "state_after (get ?s ''users'' ''constructor'') = Some ?s"
    using d c t by auto
  show ?thesis using l c t n 1 2 3 by simp
qed

section \<open>C10: a \<open>null\<close> record reads as absent\<close>

text \<open>
  C10 (as stated): after \<open>set(T, K, null)\<close> the key is in the mapping with value
  \<open>null\<close>, for every key. This fails at the key \<open>__proto__\<close>: the assignment
  reaches the accessor of \<open>Object.prototype\<close> and removes the prototype of the table;
  the mapping gets no key.
\<close>

theorem C10_set_null_at_proto:
  "getAll_after [] (initial_state ''/bot/src/database'') ''users'' = Some (Table fmempty ObjectPrototype) \<and>
   getAll_after [Set ''users'' ''__proto__'' JNull] (initial_state ''/bot/src/database'')
      ''users'' = Some (Table fmempty NullPrototype)"
  by (simp add: eval_defs)

text \<open>
  C10 (amended): for a key other than \<open>__proto__\<close> (or one the mapping already
  has), after \<open>set(T, K, null)\<close> the mapping \<open>getAll(T)\<close> returns has \<open>K\<close> with
  value \<open>null\<close>, and \<open>get(T, K)\<close> returns \<open>null\<close>, which is also what \<open>get\<close>
  returns for a key the mapping does not have.
\<close>

theorem C10_null_record_reads_as_absent:
  assumes "loadTable st T = (st1, Table m p)" and "T \<noteq> ''__proto__''"
    and "K \<noteq> ''__proto__'' \<or> K |\<in>| fmdom m"
  shows "returned (set_db st T K JNull) = Some () \<and>
         getAll_after [Set T K JNull] st T = Some (Table (fmupd K JNull m) p) \<and>
         fmlookup (fmupd K JNull m) K = Some JNull \<and>
         get_after [Set T K JNull] st T K = Some (Val JNull) \<and>
         (\<forall>K'. fmlookup (fmupd K JNull m) K' = None \<and> p = ObjectPrototype \<and>
               K' \<notin> set object_prototype_names \<longrightarrow>
               get_after [Set T K JNull] st T K' = Some (Val JNull))"
proof -
  obtain st2 where s: "set_db st T K JNull = Returns st2 ()"
      "getAll st2 T = (st2, Table (fmupd K JNull m) p)"
      "get st2 T K = Returns st2 (or_null (Val JNull))"
    using set_replaces [OF assms(1,2) _ assms(3), of JNull] by auto
  have l: "loadTable st2 T = (st2, Table (fmupd K JNull m) p)"
    using s(2) by (simp add: getAll_def)
  have "get st2 T K' = Returns st2 (Val JNull)"
    if "fmlookup (fmupd K JNull m) K' = None" "p = ObjectPrototype"
       "K' \<notin> set object_prototype_names" for K'
    using l that by (simp add: get_def table_read_def object_prototype_get_def)
  then show ?thesis using s by (simp add: get_after_def getAll_after_def)
qed

text \<open>
  C10 (amended), at the empty table \<open>users\<close>: \<open>u1\<close> is set to \<open>null\<close>,
  \<open>u2\<close> was never written.
\<close>

theorem C10_null_record_witness:
  "loadTable (users_state fmempty) ''users'' = (users_state fmempty, Table fmempty ObjectPrototype) \<and>
   ''users'' \<noteq> ''__proto__'' \<and> ''u1'' \<noteq> ''__proto__'' \<and>
   getAll_after [Set ''users'' ''u1'' JNull] (users_state fmempty) ''users''
     = Some (Table (fmupd ''u1'' JNull fmempty) ObjectPrototype) \<and>
   get_after [Set ''users'' ''u1'' JNull] (users_state fmempty) ''users'' ''u1'' = Some (Val JNull) \<and>
   ''u2'' \<notin> set object_prototype_names \<and>
   get_after [Set ''users'' ''u1'' JNull] (users_state fmempty) ''users'' ''u2'' = Some (Val JNull)"
  using C10_null_record_reads_as_absent [OF users_state_load, where K = "''u1''" and m = fmempty]
        users_state_load [of fmempty]
  by (simp add: object_prototype_names_def)

end
